theory Spec2Isabelle
  imports Main
begin

section \<open>Python strings and the character classes of \<open>re\<close>\<close>

text \<open>
  A Python \<open>str\<close> is a sequence of Unicode code points. The classes \<open>\d\<close>, \<open>\s\<close> and
  \<open>\w\<close> of a \<open>str\<close> pattern are fixed on ASCII; beyond ASCII they are read from the
  Unicode database of the interpreter, which is no part of the repository and is a
  parameter here. \<open>\w\<close> is CPython's \<open>Py_UNICODE_ISALNUM\<close> (alphabetic, decimal, digit
  or numeric) or the underscore.
\<close>

type_synonym codepoint = nat
type_synonym pystr = "codepoint list"

definition codes :: "string \<Rightarrow> pystr" where
  "codes s = map of_char s"

record unicode_db =
  uni_alpha :: "codepoint \<Rightarrow> bool"
  uni_decimal :: "codepoint \<Rightarrow> bool"
  uni_digit :: "codepoint \<Rightarrow> bool"
  uni_numeric :: "codepoint \<Rightarrow> bool"
  uni_space :: "codepoint \<Rightarrow> bool"
  uni_upper :: "codepoint \<Rightarrow> pystr"
  uni_lower :: "pystr \<Rightarrow> pystr"

definition ascii_digit :: "codepoint \<Rightarrow> bool" where
  "ascii_digit c = (48 \<le> c \<and> c \<le> 57)"

definition ascii_upper_letter :: "codepoint \<Rightarrow> bool" where
  "ascii_upper_letter c = (65 \<le> c \<and> c \<le> 90)"

definition ascii_lower_letter :: "codepoint \<Rightarrow> bool" where
  "ascii_lower_letter c = (97 \<le> c \<and> c \<le> 122)"

definition is_decimal :: "unicode_db \<Rightarrow> codepoint \<Rightarrow> bool" where
  "is_decimal db c = (if c < 128 then ascii_digit c else uni_decimal db c)"

definition is_space :: "unicode_db \<Rightarrow> codepoint \<Rightarrow> bool" where
  "is_space db c =
     (if c < 128 then (9 \<le> c \<and> c \<le> 13) \<or> (28 \<le> c \<and> c \<le> 32) else uni_space db c)"

definition is_word :: "unicode_db \<Rightarrow> codepoint \<Rightarrow> bool" where
  "is_word db c =
     (if c < 128 then ascii_digit c \<or> ascii_upper_letter c \<or> ascii_lower_letter c \<or> c = 95
      else uni_alpha db c \<or> uni_decimal db c \<or> uni_digit db c \<or> uni_numeric db c)"

text \<open>
  \<open>str.upper\<close> maps a code point to one or more code points; \<open>str.lower\<close> is
  context-sensitive beyond ASCII (final sigma), so its non-ASCII case is a function of the
  whole string.
\<close>

definition str_upper :: "unicode_db \<Rightarrow> pystr \<Rightarrow> pystr" where
  "str_upper db s =
     concat (map (\<lambda>c. if c < 128 then [if ascii_lower_letter c then c - 32 else c]
                       else uni_upper db c) s)"

definition str_lower :: "unicode_db \<Rightarrow> pystr \<Rightarrow> pystr" where
  "str_lower db s =
     (if list_all (\<lambda>c. c < 128) s
      then map (\<lambda>c. if ascii_upper_letter c then c + 32 else c) s
      else uni_lower db s)"

section \<open>The regular expressions of the module\<close>

text \<open>
  The fragment of \<open>re\<close> syntax that the module uses. A one-character class is a list of
  atoms (a literal, a range, \<open>\d\<close>, \<open>\s\<close>); a bare literal or escape is a singleton
  list, a bracket expression lists its members. All repetitions of the module's patterns
  are greedy; \<open>Rep\<close> repeats a one-character class between \<open>lo\<close> and \<open>hi\<close> times
  (\<open>None\<close>: unbounded), \<open>Opt\<close> is \<open>?\<close> on a group. \<open>Grp\<close> is capturing group 1.
\<close>

datatype atom = Lit char | Range char char | Digit | Space

datatype regex =
    Eps
  | Chars "atom list"
  | NotChars "atom list"
  | Bnd
  | Cat regex regex
  | Alt regex regex
  | Opt regex
  | Rep "atom list" nat "nat option"
  | Grp regex

fun atom_match :: "unicode_db \<Rightarrow> atom \<Rightarrow> codepoint \<Rightarrow> bool" where
  "atom_match db (Lit ch) c = (c = of_char ch)"
| "atom_match db (Range lo hi) c = (of_char lo \<le> c \<and> c \<le> of_char hi)"
| "atom_match db Digit c = is_decimal db c"
| "atom_match db Space c = is_space db c"

definition in_class :: "unicode_db \<Rightarrow> atom list \<Rightarrow> codepoint \<Rightarrow> bool" where
  "in_class db as c = list_ex (\<lambda>a. atom_match db a c) as"

text \<open>
  A matcher state: the character before the current position (\<open>None\<close> at the start of
  the text), the text from the current position on, and the text captured by group 1.
\<close>

record mstate =
  prev :: "codepoint option"
  rest :: pystr
  cap :: "pystr option"

definition is_word_opt :: "unicode_db \<Rightarrow> codepoint option \<Rightarrow> bool" where
  "is_word_opt db p = (case p of None \<Rightarrow> False | Some c \<Rightarrow> is_word db c)"

definition at_boundary :: "unicode_db \<Rightarrow> mstate \<Rightarrow> bool" where
  "at_boundary db st =
     (is_word_opt db (prev st) \<noteq>
      is_word_opt db (case rest st of [] \<Rightarrow> None | c # _ \<Rightarrow> Some c))"

text \<open>
  The ends of a greedy repetition of a one-character class, longest first: the engine
  consumes as many characters as the bounds allow and gives them back one at a time.
\<close>

fun rep_ends ::
  "(codepoint \<Rightarrow> bool) \<Rightarrow> nat \<Rightarrow> nat option \<Rightarrow> codepoint option \<Rightarrow> pystr \<Rightarrow>
   (codepoint option \<times> pystr) list" where
  "rep_ends P lo hi p [] = (if lo = 0 then [(p, [])] else [])"
| "rep_ends P lo hi p (c # cs) =
     (if P c \<and> hi \<noteq> Some 0
      then rep_ends P (lo - 1) (map_option (\<lambda>h. h - 1) hi) (Some c) cs else []) @
     (if lo = 0 then [(p, c # cs)] else [])"

definition consumed :: "mstate \<Rightarrow> mstate \<Rightarrow> pystr" where
  "consumed st st' = take (length (rest st) - length (rest st')) (rest st)"

text \<open>
  The backtracking matcher: all the ways one pattern matches at a state, in the order in
  which the engine tries them. The engine reports the first.
\<close>

primrec ms :: "unicode_db \<Rightarrow> regex \<Rightarrow> mstate \<Rightarrow> mstate list" where
  "ms db Eps st = [st]"
| "ms db (Chars as) st =
     (case rest st of [] \<Rightarrow> []
      | c # cs \<Rightarrow> if in_class db as c then [st\<lparr>prev := Some c, rest := cs\<rparr>] else [])"
| "ms db (NotChars as) st =
     (case rest st of [] \<Rightarrow> []
      | c # cs \<Rightarrow> if in_class db as c then [] else [st\<lparr>prev := Some c, rest := cs\<rparr>])"
| "ms db Bnd st = (if at_boundary db st then [st] else [])"
| "ms db (Cat r1 r2) st = concat (map (ms db r2) (ms db r1 st))"
| "ms db (Alt r1 r2) st = ms db r1 st @ ms db r2 st"
| "ms db (Opt r) st = ms db r st @ [st]"
| "ms db (Rep as lo hi) st =
     map (\<lambda>(p, s). st\<lparr>prev := p, rest := s\<rparr>) (rep_ends (in_class db as) lo hi (prev st) (rest st))"
| "ms db (Grp r) st = map (\<lambda>st'. st'\<lparr>cap := Some (consumed st st')\<rparr>) (ms db r st)"

text \<open>
  \<open>Pattern.match\<close> at one position, and \<open>Pattern.search\<close>: the first start
  position, from the left, with a match. The position after the last character is tried
  too.
\<close>

definition match_at :: "unicode_db \<Rightarrow> regex \<Rightarrow> codepoint option \<Rightarrow> pystr \<Rightarrow> mstate option" where
  "match_at db r p s =
     (case ms db r \<lparr>prev = p, rest = s, cap = None\<rparr> of [] \<Rightarrow> None | m # _ \<Rightarrow> Some m)"

fun search_from :: "unicode_db \<Rightarrow> regex \<Rightarrow> codepoint option \<Rightarrow> pystr \<Rightarrow> mstate option" where
  "search_from db r p [] = match_at db r p []"
| "search_from db r p (c # cs) =
     (case match_at db r p (c # cs) of
        None \<Rightarrow> search_from db r (Some c) cs
      | Some m \<Rightarrow> Some m)"

definition re_search :: "unicode_db \<Rightarrow> regex \<Rightarrow> pystr \<Rightarrow> mstate option" where
  "re_search db r text = search_from db r None text"

text \<open>
  \<open>re.sub\<close> with a pattern that is a single one-character class: no match is empty and
  none overlaps, so every character of the class is replaced and every other is kept.
\<close>

fun re_sub :: "unicode_db \<Rightarrow> regex \<Rightarrow> pystr \<Rightarrow> codepoint option \<Rightarrow> pystr \<Rightarrow> pystr" where
  "re_sub db r repl p [] = []"
| "re_sub db r repl p (c # cs) =
     (case ms db r \<lparr>prev = p, rest = c # cs, cap = None\<rparr> of
        [] \<Rightarrow> c # re_sub db r repl (Some c) cs
      | m # _ \<Rightarrow> repl @ re_sub db r repl (Some c) cs)"

fun seq :: "regex list \<Rightarrow> regex" where
  "seq [] = Eps"
| "seq (r # rs) = Cat r (seq rs)"

definition lit :: "char \<Rightarrow> regex" where
  "lit ch = Chars [Lit ch]"

text \<open>
  \<^verbatim>\<open>_ISBN_RE = re.compile(
    r'\b(?:ISBN(?:-1[03])?:?\s*)?'
    r'((?:97[89][-\s]?\d{1,5}[-\s]?\d+[-\s]?\d+[-\s]?\d)|(?:\d{1,5}[-\s]?\d+[-\s]?\d+[-\s]?[0-9Xx]))\b')\<close>
\<close>

definition sep :: regex where
  "sep = Rep [Lit CHR ''-'', Space] 0 (Some 1)"

definition isbn_prefix :: regex where
  "isbn_prefix =
     seq [lit CHR ''I'', lit CHR ''S'', lit CHR ''B'', lit CHR ''N'',
          Opt (seq [lit CHR ''-'', lit CHR ''1'', Chars [Lit CHR ''0'', Lit CHR ''3'']]),
          Rep [Lit CHR '':''] 0 (Some 1),
          Rep [Space] 0 None]"

definition isbn13_shape :: regex where
  "isbn13_shape =
     seq [lit CHR ''9'', lit CHR ''7'', Chars [Lit CHR ''8'', Lit CHR ''9''], sep,
          Rep [Digit] 1 (Some 5), sep, Rep [Digit] 1 None, sep, Rep [Digit] 1 None, sep,
          Chars [Digit]]"

definition isbn10_shape :: regex where
  "isbn10_shape =
     seq [Rep [Digit] 1 (Some 5), sep, Rep [Digit] 1 None, sep, Rep [Digit] 1 None, sep,
          Chars [Range CHR ''0'' CHR ''9'', Lit CHR ''X'', Lit CHR ''x'']]"

definition ISBN_RE :: regex where
  "ISBN_RE = seq [Bnd, Opt isbn_prefix, Grp (Alt isbn13_shape isbn10_shape), Bnd]"

datatype exn = TypeError | Failure pystr

text \<open>
  \<^verbatim>\<open>def _normalize_isbn(raw: str) -> str:
    return re.sub(r'[^0-9Xx]', '', raw).upper()\<close>
\<close>

definition normalize_isbn :: "unicode_db \<Rightarrow> pystr \<Rightarrow> pystr" where
  "normalize_isbn db raw =
     str_upper db
       (re_sub db (NotChars [Range CHR ''0'' CHR ''9'', Lit CHR ''X'', Lit CHR ''x'']) [] None raw)"

text \<open>
  \<^verbatim>\<open>match = _ISBN_RE.search(text)
  return _normalize_isbn(match.group(1)) if match else None\<close>
  \<open>match.group(1)\<close> is \<open>None\<close> for a group that took no part in the match, and
  \<open>re.sub\<close> raises \<open>TypeError\<close> on it.
\<close>

definition find_isbn_in_text :: "unicode_db \<Rightarrow> pystr \<Rightarrow> exn + pystr option" where
  "find_isbn_in_text db text =
     (case re_search db ISBN_RE text of
        None \<Rightarrow> Inr None
      | Some m \<Rightarrow>
          (case cap m of
             None \<Rightarrow> Inl TypeError
           | Some g \<Rightarrow> Inr (Some (normalize_isbn db g))))"

section \<open>The libraries and the files\<close>

text \<open>
  \<open>pypdf\<close>, \<open>ebooklib\<close> and the file system are outside the repository. A \<open>world\<close>
  gives, for every call the module makes into them, its outcome: a value, or the
  exception it raises. Every handler of the module is \<open>except Exception\<close>; \<open>exn\<close> stands
  for the instances of \<open>Exception\<close>. A handler logs with \<open>logger.debug\<close> before it
  returns; \<open>logging\<close> reports its own failures and does not raise, and the call has no
  part in the results, so it is left out.

  A path is given by the string that opens the file and by the value of \<open>pathlib\<close>'s
  \<open>suffix\<close> property.
\<close>

record pypath =
  path_str :: pystr
  path_suffix :: pystr

text \<open>
  The document information of a PDF: a \<open>dict\<close> (read with \<open>get\<close>) or another object
  (read with \<open>getattr\<close> and the default \<open>None\<close>), which has a truth value of its own.
\<close>

datatype pdf_info =
    InfoDict "pystr \<rightharpoonup> pystr option"
  | InfoObject bool "pystr \<rightharpoonup> pystr option"

text \<open>A page is the outcome of its \<open>extract_text()\<close>.\<close>

type_synonym pdf_page = "exn + pystr option"

record pdf_reader =
  reader_metadata :: "exn + pdf_info option"
  reader_pages :: "exn + (exn + pdf_page) list"

text \<open>
  \<open>get_metadata(namespace, name)\<close> lists pairs of a value and its attributes; only the
  value is read. \<open>epub_documents\<close> are the items of type \<open>ITEM_DOCUMENT\<close> in the order of
  \<open>get_items_of_type\<close>, each the outcome of its \<open>get_content()\<close>.
\<close>

record epub_book =
  get_metadata :: "pystr \<Rightarrow> pystr \<Rightarrow> exn + pystr option list"
  epub_documents :: "(exn + nat list) list"

record world =
  PdfReader :: "pystr \<Rightarrow> exn + pdf_reader"
  read_epub :: "pystr \<Rightarrow> exn + epub_book"
  decode_utf8_ignore :: "nat list \<Rightarrow> pystr"

section \<open>Python values\<close>

definition dict_get :: "('k \<rightharpoonup> 'v) \<Rightarrow> 'k \<Rightarrow> 'v \<Rightarrow> 'v" where
  "dict_get d k dflt = (case d k of None \<Rightarrow> dflt | Some v \<Rightarrow> v)"

text \<open>Truth of an optional string, and \<open>a or b\<close>.\<close>

definition truthy :: "pystr option \<Rightarrow> bool" where
  "truthy v = (case v of None \<Rightarrow> False | Some s \<Rightarrow> s \<noteq> [])"

definition py_or :: "pystr option \<Rightarrow> pystr option \<Rightarrow> pystr option" where
  "py_or a b = (if truthy a then a else b)"

definition try_except :: "exn + 'a \<Rightarrow> (exn \<Rightarrow> exn + 'a) \<Rightarrow> exn + 'a" where
  "try_except body handler = (case body of Inl exc \<Rightarrow> handler exc | Inr v \<Rightarrow> Inr v)"

text \<open>A slice \<open>xs[:n]\<close> of a lazy sequence fetches its first \<open>n\<close> elements in order.\<close>

fun fetch_all :: "(exn + 'a) list \<Rightarrow> exn + 'a list" where
  "fetch_all [] = Inr []"
| "fetch_all (x # xs) =
     (case x of Inl e \<Rightarrow> Inl e
      | Inr v \<Rightarrow> (case fetch_all xs of Inl e \<Rightarrow> Inl e | Inr vs \<Rightarrow> Inr (v # vs)))"

definition slice_to :: "nat \<Rightarrow> (exn + 'a) list \<Rightarrow> exn + 'a list" where
  "slice_to n xs = fetch_all (take n xs)"

section \<open>The format adapters\<close>

type_synonym metadata = "pystr \<rightharpoonup> pystr option"

text \<open>
  \<^verbatim>\<open>reader = pypdf.PdfReader(str(self.filepath))
  info = reader.metadata or {}
  get = lambda k: info.get(k) if isinstance(info, dict) else getattr(info, k, None)
  return {'title': get('/Title') or get('title'), 'author': get('/Author') or get('author')}\<close>
  in a \<open>try\<close> whose handler returns \<open>{}\<close>.
\<close>

text \<open>\<open>reader.metadata or {}\<close>: an empty \<open>dict\<close> is replaced by an equal one.\<close>

definition info_or_empty :: "pdf_info option \<Rightarrow> pdf_info" where
  "info_or_empty m =
     (case m of None \<Rightarrow> InfoDict Map.empty
      | Some (InfoDict d) \<Rightarrow> InfoDict d
      | Some (InfoObject t a) \<Rightarrow> if t then InfoObject t a else InfoDict Map.empty)"

fun info_get :: "pdf_info \<Rightarrow> pystr \<Rightarrow> pystr option" where
  "info_get (InfoDict d) k = dict_get d k None"
| "info_get (InfoObject t a) k = dict_get a k None"

definition extract_pdf_metadata :: "world \<Rightarrow> pypath \<Rightarrow> exn + metadata" where
  "extract_pdf_metadata w fp =
     try_except
       (case PdfReader w (path_str fp) of Inl e \<Rightarrow> Inl e
        | Inr reader \<Rightarrow>
            (case reader_metadata reader of Inl e \<Rightarrow> Inl e
             | Inr m \<Rightarrow>
                 (let info = info_or_empty m in
                  Inr [codes ''title'' \<mapsto> py_or (info_get info (codes ''/Title'')) (info_get info (codes ''title'')),
                       codes ''author'' \<mapsto> py_or (info_get info (codes ''/Author'')) (info_get info (codes ''author''))])))
       (\<lambda>exc. Inr Map.empty)"

text \<open>
  \<^verbatim>\<open>book = epub.read_epub(str(self.filepath))
  meta = lambda name: (book.get_metadata('DC', name) or [None])[0][0] if book.get_metadata('DC', name) else None
  return {'title': meta('title'), 'author': meta('creator')}\<close>
  in a \<open>try\<close> whose handler returns \<open>{}\<close>.
\<close>

definition meta :: "epub_book \<Rightarrow> pystr \<Rightarrow> exn + pystr option" where
  "meta book name =
     (case get_metadata book (codes ''DC'') name of Inl e \<Rightarrow> Inl e
      | Inr [] \<Rightarrow> Inr None
      | Inr (v # vs) \<Rightarrow> Inr v)"

definition extract_epub_metadata :: "world \<Rightarrow> pypath \<Rightarrow> exn + metadata" where
  "extract_epub_metadata w fp =
     try_except
       (case read_epub w (path_str fp) of Inl e \<Rightarrow> Inl e
        | Inr book \<Rightarrow>
            (case meta book (codes ''title'') of Inl e \<Rightarrow> Inl e
             | Inr t \<Rightarrow>
                 (case meta book (codes ''creator'') of Inl e \<Rightarrow> Inl e
                  | Inr a \<Rightarrow> Inr [codes ''title'' \<mapsto> t, codes ''author'' \<mapsto> a])))
       (\<lambda>exc. Inr Map.empty)"

text \<open>
  \<^verbatim>\<open>for page in reader.pages[:max_pages]:
      isbn = self._find_isbn_in_text(page.extract_text() or '')
      if isbn:
          return isbn\<close>
  The loop ends with \<open>Inr None\<close> when no page returned.
\<close>

definition or_empty :: "pystr option \<Rightarrow> pystr" where
  "or_empty t = (case t of None \<Rightarrow> [] | Some s \<Rightarrow> s)"

fun scan_pages :: "unicode_db \<Rightarrow> pdf_page list \<Rightarrow> exn + pystr option" where
  "scan_pages db [] = Inr None"
| "scan_pages db (page # pages) =
     (case page of Inl e \<Rightarrow> Inl e
      | Inr t \<Rightarrow>
          (case find_isbn_in_text db (or_empty t) of Inl e \<Rightarrow> Inl e
           | Inr isbn \<Rightarrow> if truthy isbn then Inr isbn else scan_pages db pages))"

definition extract_isbn_from_pdf :: "unicode_db \<Rightarrow> world \<Rightarrow> pypath \<Rightarrow> nat \<Rightarrow> exn + pystr option" where
  "extract_isbn_from_pdf db w fp max_pages =
     try_except
       (case PdfReader w (path_str fp) of Inl e \<Rightarrow> Inl e
        | Inr reader \<Rightarrow>
            (case reader_pages reader of Inl e \<Rightarrow> Inl e
             | Inr pages \<Rightarrow>
                 (case slice_to max_pages pages of Inl e \<Rightarrow> Inl e
                  | Inr first_pages \<Rightarrow> scan_pages db first_pages)))
       (\<lambda>exc. Inr None)"

text \<open>
  \<^verbatim>\<open>for item in book.get_items_of_type(ebooklib.ITEM_DOCUMENT):
      text = item.get_content().decode('utf-8', errors='ignore')
      isbn = self._find_isbn_in_text(text)
      if isbn:
          return isbn\<close>
\<close>

fun scan_items :: "unicode_db \<Rightarrow> world \<Rightarrow> (exn + nat list) list \<Rightarrow> exn + pystr option" where
  "scan_items db w [] = Inr None"
| "scan_items db w (item # items) =
     (case item of Inl e \<Rightarrow> Inl e
      | Inr content \<Rightarrow>
          (case find_isbn_in_text db (decode_utf8_ignore w content) of Inl e \<Rightarrow> Inl e
           | Inr isbn \<Rightarrow> if truthy isbn then Inr isbn else scan_items db w items))"

definition extract_isbn_from_epub :: "unicode_db \<Rightarrow> world \<Rightarrow> pypath \<Rightarrow> exn + pystr option" where
  "extract_isbn_from_epub db w fp =
     try_except
       (case read_epub w (path_str fp) of Inl e \<Rightarrow> Inl e
        | Inr book \<Rightarrow> scan_items db w (epub_documents book))
       (\<lambda>exc. Inr None)"

section \<open>The Book descriptor\<close>

text \<open>
  A \<open>Book\<close> holds its path and, for every \<open>cached_property\<close> already read, the entry
  that the property stored in the instance's \<open>__dict__\<close>. \<open>calls\<close> is a ghost field: it
  records every call of one of the four extraction methods on the instance, as a
  call-count probe on the adapters would.
\<close>

datatype probe = PdfMetadata | EpubMetadata | PdfIsbn | EpubIsbn

record Book =
  filepath :: pypath
  format_cache :: "pystr option"
  metadata_cache :: "metadata option"
  title_cache :: "pystr option option"
  author_cache :: "pystr option option"
  isbn_cache :: "pystr option option"
  calls :: "probe list"

definition new_Book :: "pypath \<Rightarrow> Book" where
  "new_Book fp =
     \<lparr>filepath = fp, format_cache = None, metadata_cache = None, title_cache = None,
      author_cache = None, isbn_cache = None, calls = []\<rparr>"

text \<open>
  \<open>functools.cached_property\<close>: a stored entry is returned as it is; otherwise the
  function runs, and its value is stored unless it raised.
\<close>

definition cached_property ::
  "('s \<Rightarrow> 'a option) \<Rightarrow> ('a \<Rightarrow> 's \<Rightarrow> 's) \<Rightarrow> ('s \<Rightarrow> (exn + 'a) \<times> 's) \<Rightarrow> 's \<Rightarrow> (exn + 'a) \<times> 's" where
  "cached_property lookup store func self =
     (case lookup self of
        Some v \<Rightarrow> (Inr v, self)
      | None \<Rightarrow>
          (case func self of
             (Inl e, self') \<Rightarrow> (Inl e, self')
           | (Inr v, self') \<Rightarrow> (Inr v, store v self')))"

definition probed :: "probe \<Rightarrow> (pypath \<Rightarrow> exn + 'a) \<Rightarrow> Book \<Rightarrow> (exn + 'a) \<times> Book" where
  "probed k method self = (method (filepath self), self\<lparr>calls := calls self @ [k]\<rparr>)"

text \<open>
  \<^verbatim>\<open>formats = {'.pdf': 'PDF', '.epub': 'EPUB'}
  return formats.get(self.filepath.suffix.lower(), 'Unknown')\<close>
\<close>

definition formats :: "pystr \<rightharpoonup> pystr" where
  "formats = [codes ''.pdf'' \<mapsto> codes ''PDF'', codes ''.epub'' \<mapsto> codes ''EPUB'']"

definition format :: "unicode_db \<Rightarrow> Book \<Rightarrow> (exn + pystr) \<times> Book" where
  "format db =
     cached_property format_cache (\<lambda>v self. self\<lparr>format_cache := Some v\<rparr>)
       (\<lambda>self. (Inr (dict_get formats (str_lower db (path_suffix (filepath self)))
                        (codes ''Unknown'')), self))"

text \<open>
  \<^verbatim>\<open>extractors = {'PDF': self._extract_pdf_metadata, 'EPUB': self._extract_epub_metadata}
  return extractors.get(self.format, lambda: {})()\<close>
\<close>

definition metadata_extractors :: "world \<Rightarrow> pystr \<rightharpoonup> (Book \<Rightarrow> (exn + metadata) \<times> Book)" where
  "metadata_extractors w =
     [codes ''PDF'' \<mapsto> probed PdfMetadata (extract_pdf_metadata w),
      codes ''EPUB'' \<mapsto> probed EpubMetadata (extract_epub_metadata w)]"

definition metadata :: "unicode_db \<Rightarrow> world \<Rightarrow> Book \<Rightarrow> (exn + metadata) \<times> Book" where
  "metadata db w =
     cached_property metadata_cache (\<lambda>v self. self\<lparr>metadata_cache := Some v\<rparr>)
       (\<lambda>self. case format db self of
                  (Inl e, self') \<Rightarrow> (Inl e, self')
                | (Inr fmt, self') \<Rightarrow>
                    dict_get (metadata_extractors w) fmt (\<lambda>self. (Inr Map.empty, self)) self')"

text \<open>\<^verbatim>\<open>return self.metadata.get('title')\<close> and \<^verbatim>\<open>return self.metadata.get('author')\<close>\<close>

definition title :: "unicode_db \<Rightarrow> world \<Rightarrow> Book \<Rightarrow> (exn + pystr option) \<times> Book" where
  "title db w =
     cached_property title_cache (\<lambda>v self. self\<lparr>title_cache := Some v\<rparr>)
       (\<lambda>self. case metadata db w self of
                  (Inl e, self') \<Rightarrow> (Inl e, self')
                | (Inr md, self') \<Rightarrow> (Inr (dict_get md (codes ''title'') None), self'))"

definition author :: "unicode_db \<Rightarrow> world \<Rightarrow> Book \<Rightarrow> (exn + pystr option) \<times> Book" where
  "author db w =
     cached_property author_cache (\<lambda>v self. self\<lparr>author_cache := Some v\<rparr>)
       (\<lambda>self. case metadata db w self of
                  (Inl e, self') \<Rightarrow> (Inl e, self')
                | (Inr md, self') \<Rightarrow> (Inr (dict_get md (codes ''author'') None), self'))"

text \<open>
  \<^verbatim>\<open>extractors = {'PDF': self._extract_isbn_from_pdf, 'EPUB': self._extract_isbn_from_epub}
  return extractors.get(self.format, lambda: None)()\<close>
  The PDF method is called with its default \<open>max_pages = 10\<close>.
\<close>

definition isbn_extractors ::
  "unicode_db \<Rightarrow> world \<Rightarrow> pystr \<rightharpoonup> (Book \<Rightarrow> (exn + pystr option) \<times> Book)" where
  "isbn_extractors db w =
     [codes ''PDF'' \<mapsto> probed PdfIsbn (\<lambda>fp. extract_isbn_from_pdf db w fp 10),
      codes ''EPUB'' \<mapsto> probed EpubIsbn (extract_isbn_from_epub db w)]"

definition isbn :: "unicode_db \<Rightarrow> world \<Rightarrow> Book \<Rightarrow> (exn + pystr option) \<times> Book" where
  "isbn db w =
     cached_property isbn_cache (\<lambda>v self. self\<lparr>isbn_cache := Some v\<rparr>)
       (\<lambda>self. case format db self of
                  (Inl e, self') \<Rightarrow> (Inl e, self')
                | (Inr fmt, self') \<Rightarrow>
                    dict_get (isbn_extractors db w) fmt (\<lambda>self. (Inr None, self)) self')"

text \<open>
  A caller reads attributes one after the other, while the files may change: a read names
  the attribute and carries the world at the time of the read.
\<close>

datatype attr = Format | Metadata | Title | Author | Isbn

fun read_attr :: "unicode_db \<Rightarrow> attr \<times> world \<Rightarrow> Book \<Rightarrow> Book" where
  "read_attr db (Format, w) self = snd (format db self)"
| "read_attr db (Metadata, w) self = snd (metadata db w self)"
| "read_attr db (Title, w) self = snd (title db w self)"
| "read_attr db (Author, w) self = snd (author db w self)"
| "read_attr db (Isbn, w) self = snd (isbn db w self)"

definition reads :: "unicode_db \<Rightarrow> (attr \<times> world) list \<Rightarrow> Book \<Rightarrow> Book" where
  "reads db rs self = fold (read_attr db) rs self"

section \<open>Notions used in the proofs\<close>

text \<open>
  \<open>lastp p w\<close> is the character before the position reached from \<open>p\<close> by reading \<open>w\<close>.
  \<open>lang db r\<close> is the set of strings that \<open>r\<close> can consume, whatever the surrounding
  text (a boundary assertion consumes nothing). \<open>body_ok\<close> holds of a string of decimal
  digits, hyphens and white space, and \<open>ndec\<close> counts its decimal digits.
  \<open>spec_candidate_form\<close> is the shape that the specification gives to a candidate:
  13 digits that begin with 978 or 979, or 10 characters, digits but for a last X.
\<close>

definition lastp :: "codepoint option \<Rightarrow> pystr \<Rightarrow> codepoint option" where
  "lastp p w = (if w = [] then p else Some (last w))"

primrec lang :: "unicode_db \<Rightarrow> regex \<Rightarrow> pystr set" where
  "lang db Eps = {[]}"
| "lang db (Chars as) = {[c] | c. in_class db as c}"
| "lang db (NotChars as) = {[c] | c. \<not> in_class db as c}"
| "lang db Bnd = {[]}"
| "lang db (Cat r1 r2) = {u @ v | u v. u \<in> lang db r1 \<and> v \<in> lang db r2}"
| "lang db (Alt r1 r2) = lang db r1 \<union> lang db r2"
| "lang db (Opt r) = insert [] (lang db r)"
| "lang db (Rep as lo hi) =
     {w. list_all (in_class db as) w \<and> lo \<le> length w \<and>
         (case hi of None \<Rightarrow> True | Some h \<Rightarrow> length w \<le> h)}"
| "lang db (Grp r) = lang db r"

definition body_ok :: "unicode_db \<Rightarrow> pystr \<Rightarrow> bool" where
  "body_ok db w = list_all (\<lambda>d. is_decimal db d \<or> d = 45 \<or> is_space db d) w"

definition ndec :: "unicode_db \<Rightarrow> pystr \<Rightarrow> nat" where
  "ndec db w = length (filter (is_decimal db) w)"

definition spec_candidate_form :: "pystr \<Rightarrow> bool" where
  "spec_candidate_form r =
     (length r = 13 \<and> list_all ascii_digit r \<and>
        (take 3 r = codes ''978'' \<or> take 3 r = codes ''979'') \<or>
      length r = 10 \<and> list_all ascii_digit (butlast r) \<and>
        (ascii_digit (last r) \<or> last r = of_char CHR ''X''))"

text \<open>
  Notions for the Book: the probe entry that a dispatch on a format adds, the format that a
  read of \<open>format\<close> returns, the invariants of a sequence of reads, a text block without
  a match, and the worlds, paths and pages of the examples.
\<close>

definition md_probe :: "pystr \<Rightarrow> probe list" where
  "md_probe fmt = (if fmt = codes ''PDF'' then [PdfMetadata] else if fmt = codes ''EPUB'' then [EpubMetadata] else [])"

definition isbn_probe :: "pystr \<Rightarrow> probe list" where
  "isbn_probe fmt = (if fmt = codes ''PDF'' then [PdfIsbn] else if fmt = codes ''EPUB'' then [EpubIsbn] else [])"

definition format_of :: "unicode_db \<Rightarrow> Book \<Rightarrow> pystr" where
  "format_of db self =
     (case format_cache self of
        Some v \<Rightarrow> v
      | None \<Rightarrow> dict_get formats (str_lower db (path_suffix (filepath self))) (codes ''Unknown''))"

definition is_md :: "probe \<Rightarrow> bool" where
  "is_md k = (k = PdfMetadata \<or> k = EpubMetadata)"

definition is_isbn :: "probe \<Rightarrow> bool" where
  "is_isbn k = (k = PdfIsbn \<or> k = EpubIsbn)"

definition once_inv :: "Book \<Rightarrow> bool" where
  "once_inv b =
     (length (filter is_md (calls b)) \<le> (if metadata_cache b = None then 0 else 1) \<and>
      length (filter is_isbn (calls b)) \<le> (if isbn_cache b = None then 0 else 1))"

definition unknown_inv :: "unicode_db \<Rightarrow> Book \<Rightarrow> bool" where
  "unknown_inv db b = (format_of db b = codes ''Unknown'' \<and> calls b = [])"

definition no_isbn_page :: "unicode_db \<Rightarrow> pdf_page \<Rightarrow> bool" where
  "no_isbn_page db page =
     (case page of Inl e \<Rightarrow> False | Inr t \<Rightarrow> find_isbn_in_text db (or_empty t) = Inr None)"

definition no_isbn_item :: "unicode_db \<Rightarrow> world \<Rightarrow> exn + nat list \<Rightarrow> bool" where
  "no_isbn_item db w item =
     (case item of Inl e \<Rightarrow> False
      | Inr content \<Rightarrow> find_isbn_in_text db (decode_utf8_ignore w content) = Inr None)"

definition corrupt_world :: world where
  "corrupt_world =
     \<lparr>PdfReader = (\<lambda>p. Inl (Failure (codes ''not a PDF''))),
      read_epub = (\<lambda>p. Inl (Failure (codes ''not an EPUB''))),
      decode_utf8_ignore = (\<lambda>bs. bs)\<rparr>"

definition pdf_world :: "pdf_page list \<Rightarrow> world" where
  "pdf_world pages =
     \<lparr>PdfReader = (\<lambda>p. Inr \<lparr>reader_metadata = Inr (Some (InfoDict [codes ''/Title'' \<mapsto> Some (codes ''Sample Book'')])),
                             reader_pages = Inr (map Inr pages)\<rparr>),
      read_epub = (\<lambda>p. Inl (Failure (codes ''not an EPUB''))),
      decode_utf8_ignore = (\<lambda>bs. bs)\<rparr>"

definition epub_world :: "(exn + nat list) list \<Rightarrow> world" where
  "epub_world docs =
     \<lparr>PdfReader = (\<lambda>p. Inl (Failure (codes ''not a PDF''))),
      read_epub = (\<lambda>p. Inr \<lparr>get_metadata = (\<lambda>ns name. Inr []), epub_documents = docs\<rparr>),
      decode_utf8_ignore = (\<lambda>bs. bs)\<rparr>"

definition pdf_path :: pypath where
  "pdf_path = \<lparr>path_str = codes ''books/Sample.PDF'', path_suffix = codes ''.PDF''\<rparr>"

definition epub_path :: pypath where
  "epub_path = \<lparr>path_str = codes ''books/sample.epub'', path_suffix = codes ''.epub''\<rparr>"

definition txt_path :: pypath where
  "txt_path = \<lparr>path_str = codes ''notes.txt'', path_suffix = codes ''.txt''\<rparr>"

definition pages_isbn_on_3 :: "pdf_page list" where
  "pages_isbn_on_3 =
     [Inr (Some (codes ''Preface'')), Inr None, Inr (Some (codes ''ISBN-13: 978-1-23456-789-7''))]"

definition pages_isbn_on_12 :: "pdf_page list" where
  "pages_isbn_on_12 =
     replicate 11 (Inr (Some (codes ''Preface''))) @ [Inr (Some (codes ''ISBN-13: 978-1-23456-789-7''))]"

definition pages_two_candidates :: "pdf_page list" where
  "pages_two_candidates =
     [Inr (Some (codes ''Preface'')), Inr (Some (codes ''ISBN 0-306-40615-x'')),
      Inl (Failure (codes ''no text layer'')), Inr (Some (codes ''ISBN-13: 978-1-23456-789-7''))]"

definition docs_two_candidates :: "(exn + nat list) list" where
  "docs_two_candidates =
     [Inr (codes ''Preface''), Inr (codes ''ISBN-13: 978-1-23456-789-7''),
      Inl (Failure (codes ''missing item'')), Inr (codes ''ISBN 0-306-40615-x'')]"

text \<open>
  Containers that open and then fail: a reader whose document information and page tree
  cannot be read, one with a page that cannot be fetched, one with a page whose text
  cannot be extracted; a book whose title, or creator, cannot be read and with an item
  whose content cannot be read.
\<close>

definition reader_world :: "pdf_reader \<Rightarrow> world" where
  "reader_world reader =
     \<lparr>PdfReader = (\<lambda>p. Inr reader),
      read_epub = (\<lambda>p. Inl (Failure (codes ''not an EPUB''))),
      decode_utf8_ignore = (\<lambda>bs. bs)\<rparr>"

definition book_world :: "epub_book \<Rightarrow> world" where
  "book_world book =
     \<lparr>PdfReader = (\<lambda>p. Inl (Failure (codes ''not a PDF''))),
      read_epub = (\<lambda>p. Inr book),
      decode_utf8_ignore = (\<lambda>bs. bs)\<rparr>"

definition reader_bad_info :: pdf_reader where
  "reader_bad_info =
     \<lparr>reader_metadata = Inl (Failure (codes ''bad trailer'')),
      reader_pages = Inl (Failure (codes ''bad page tree''))\<rparr>"

definition reader_bad_page :: pdf_reader where
  "reader_bad_page =
     \<lparr>reader_metadata = Inr None,
      reader_pages = Inr [Inr (Inr (Some (codes ''Preface''))), Inl (Failure (codes ''bad page object'')),
                          Inr (Inr (Some (codes ''ISBN-13: 978-1-23456-789-7'')))]\<rparr>"

definition reader_bad_text :: pdf_reader where
  "reader_bad_text =
     \<lparr>reader_metadata = Inr None,
      reader_pages = Inr [Inr (Inr (Some (codes ''Preface''))), Inr (Inl (Failure (codes ''bad stream''))),
                          Inr (Inr (Some (codes ''ISBN-13: 978-1-23456-789-7'')))]\<rparr>"

definition book_bad_title :: epub_book where
  "book_bad_title =
     \<lparr>get_metadata = (\<lambda>ns name. if name = codes ''title'' then Inl (Failure (codes ''bad OPF''))
                                 else Inr [Some (codes ''Jane Doe'')]),
      epub_documents = [Inr (codes ''Preface''), Inl (Failure (codes ''missing item'')),
                        Inr (codes ''ISBN-13: 978-1-23456-789-7'')]\<rparr>"

definition book_bad_creator :: epub_book where
  "book_bad_creator =
     \<lparr>get_metadata = (\<lambda>ns name. if name = codes ''creator'' then Inl (Failure (codes ''bad OPF''))
                                 else Inr [Some (codes ''Sample Book'')]),
      epub_documents = []\<rparr>"

text \<open>
  Notions for the search: the pattern from its group on (\<open>GB\<close>), patterns without a
  group, and patterns that only consume characters. \<open>no_match_before db r p pre tail\<close>:
  in the text \<open>pre @ tail\<close>, read after the character \<open>p\<close>, no match of \<open>r\<close> begins at
  a position of \<open>pre\<close>. \<open>isbn_lead\<close>: the empty string, or what the optional prefix of
  the pattern consumes before a digit, that is \<open>ISBN\<close>, \<open>ISBN-10\<close> or \<open>ISBN-13\<close>, then
  an optional colon, then white space. \<open>sep_then_number\<close>: a text that begins with a
  hyphen or a white space and then a run of decimal digits that ends at the end of the
  text, before a character that is not a word character, or before a white space.
  \<open>digit_after\<close>: every character of a string that is not a decimal digit is followed by
  a decimal digit.
\<close>

definition GB :: regex where
  "GB = seq [Grp (Alt isbn13_shape isbn10_shape), Bnd]"

primrec grp_free :: "regex \<Rightarrow> bool" where
  "grp_free Eps = True"
| "grp_free (Chars as) = True"
| "grp_free (NotChars as) = True"
| "grp_free Bnd = True"
| "grp_free (Cat r1 r2) = (grp_free r1 \<and> grp_free r2)"
| "grp_free (Alt r1 r2) = (grp_free r1 \<and> grp_free r2)"
| "grp_free (Opt r) = grp_free r"
| "grp_free (Rep as lo hi) = True"
| "grp_free (Grp r) = False"

primrec consuming :: "regex \<Rightarrow> bool" where
  "consuming Eps = True"
| "consuming (Chars as) = True"
| "consuming (NotChars as) = True"
| "consuming Bnd = False"
| "consuming (Cat r1 r2) = (consuming r1 \<and> consuming r2)"
| "consuming (Alt r1 r2) = (consuming r1 \<and> consuming r2)"
| "consuming (Opt r) = consuming r"
| "consuming (Rep as lo hi) = True"
| "consuming (Grp r) = False"

fun no_match_before ::
  "unicode_db \<Rightarrow> regex \<Rightarrow> codepoint option \<Rightarrow> pystr \<Rightarrow> pystr \<Rightarrow> bool" where
  "no_match_before db r p [] tail = True"
| "no_match_before db r p (c # cs) tail =
     (match_at db r p (c # cs @ tail) = None \<and> no_match_before db r (Some c) cs tail)"

definition isbn_heads :: "pystr list" where
  "isbn_heads =
     [codes ''ISBN-10:'', codes ''ISBN-13:'', codes ''ISBN-10'', codes ''ISBN-13'',
      codes ''ISBN:'', codes ''ISBN'']"

definition isbn_lead :: "unicode_db \<Rightarrow> pystr \<Rightarrow> bool" where
  "isbn_lead db l =
     (l = [] \<or>
      list_ex (\<lambda>h. take (length h) l = h \<and> list_all (is_space db) (drop (length h) l)) isbn_heads)"

definition sep_then_number :: "unicode_db \<Rightarrow> pystr \<Rightarrow> bool" where
  "sep_then_number db post =
     (case post of
        c # d # ds \<Rightarrow>
          (c = of_char CHR ''-'' \<or> is_space db c) \<and> is_decimal db d \<and>
          (case dropWhile (is_decimal db) ds of
             [] \<Rightarrow> True
           | a # _ \<Rightarrow> \<not> is_word db a \<or> is_space db a)
      | _ \<Rightarrow> False)"

fun digit_after :: "unicode_db \<Rightarrow> pystr \<Rightarrow> bool" where
  "digit_after db [] = True"
| "digit_after db [c] = is_decimal db c"
| "digit_after db (c # d # w) = ((is_decimal db c \<or> is_decimal db d) \<and> digit_after db (d # w))"

section \<open>Normalisation\<close>

lemma in_class_keep:
  "in_class db [Range CHR ''0'' CHR ''9'', Lit CHR ''X'', Lit CHR ''x''] =
     (\<lambda>c. ascii_digit c \<or> c = 88 \<or> c = 120)"
  by (rule ext) (simp add: in_class_def ascii_digit_def)

lemma re_sub_NotChars: "re_sub db (NotChars as) [] p s = filter (in_class db as) s"
  by (induction s arbitrary: p) simp_all

lemma str_upper_ascii:
  "list_all (\<lambda>c. c < 128) s \<Longrightarrow>
   str_upper db s = map (\<lambda>c. if ascii_lower_letter c then c - 32 else c) s"
  by (induction s) (simp_all add: str_upper_def)

lemma normalize_isbn_filter:
  "normalize_isbn db raw =
     map (\<lambda>c. if c = 120 then 88 else c) (filter (\<lambda>c. ascii_digit c \<or> c = 88 \<or> c = 120) raw)"
proof -
  let ?keep = "\<lambda>c. ascii_digit c \<or> c = 88 \<or> c = (120::nat)"
  have a: "list_all (\<lambda>c. c < 128) (filter ?keep raw)"
    by (auto simp: list_all_iff ascii_digit_def)
  have "normalize_isbn db raw = str_upper db (filter ?keep raw)"
    by (simp add: normalize_isbn_def re_sub_NotChars in_class_keep)
  also have "\<dots> = map (\<lambda>c. if ascii_lower_letter c then c - 32 else c) (filter ?keep raw)"
    by (rule str_upper_ascii [OF a])
  also have "\<dots> = map (\<lambda>c. if c = 120 then 88 else c) (filter ?keep raw)"
    by (rule map_cong) (auto simp: ascii_digit_def ascii_lower_letter_def)
  finally show ?thesis .
qed

section \<open>Soundness of the matcher\<close>

lemma lastp_simps [simp]:
  "lastp p [] = p" "lastp p (w @ [c]) = Some c" "lastp (lastp p u) v = lastp p (u @ v)"
  "lastp p (c # w) = lastp (Some c) w"
  by (simp_all add: lastp_def)

lemma rep_ends_sound:
  "(p', s') \<in> set (rep_ends P lo hi p s) \<Longrightarrow>
   \<exists>w. s = w @ s' \<and> list_all P w \<and> lo \<le> length w \<and>
       (case hi of None \<Rightarrow> True | Some h \<Rightarrow> length w \<le> h) \<and> p' = lastp p w"
proof (induction P lo hi p s rule: rep_ends.induct)
  case (1 P lo hi p)
  then show ?case by (auto split: if_splits option.splits)
next
  case (2 P lo hi p c cs)
  from "2.prems" consider
      (more) "P c" "hi \<noteq> Some 0"
        "(p', s') \<in> set (rep_ends P (lo - 1) (map_option (\<lambda>h. h - 1) hi) (Some c) cs)"
    | (stop) "lo = 0" "p' = p" "s' = c # cs"
    by (auto split: if_splits)
  then show ?case
  proof cases
    case more
    from "2.IH" [OF _ more(3)] more(1,2) obtain w where w:
      "cs = w @ s'" "list_all P w" "lo - 1 \<le> length w"
      "(case map_option (\<lambda>h. h - 1) hi of None \<Rightarrow> True | Some h \<Rightarrow> length w \<le> h)"
      "p' = lastp (Some c) w"
      by auto
    show ?thesis
      apply (rule exI [of _ "c # w"])
      using w more(1,2) by (auto split: option.splits simp: lastp_def)
  next
    case stop
    then show ?thesis by (auto intro!: exI [of _ "[]"] split: option.splits)
  qed
qed

lemma ms_sound:
  "st' \<in> set (ms db r st) \<Longrightarrow>
   \<exists>w. w \<in> lang db r \<and> rest st = w @ rest st' \<and> prev st' = lastp (prev st) w"
proof (induction r arbitrary: st st')
  case Eps
  then show ?case by simp
next
  case (Chars as)
  then show ?case by (cases "rest st") (auto split: if_splits)
next
  case (NotChars as)
  then show ?case by (cases "rest st") (auto split: if_splits)
next
  case Bnd
  then show ?case by (simp split: if_splits)
next
  case (Cat r1 r2)
  then obtain st1 where s1: "st1 \<in> set (ms db r1 st)" and s2: "st' \<in> set (ms db r2 st1)"
    by auto
  from Cat.IH(1) [OF s1] obtain u where
    u: "u \<in> lang db r1" "rest st = u @ rest st1" "prev st1 = lastp (prev st) u" by blast
  from Cat.IH(2) [OF s2] obtain v where
    v: "v \<in> lang db r2" "rest st1 = v @ rest st'" "prev st' = lastp (prev st1) v" by blast
  have "u @ v \<in> lang db (Cat r1 r2)" using u(1) v(1) by auto
  moreover have "rest st = (u @ v) @ rest st'" using u(2) v(2) by simp
  moreover have "prev st' = lastp (prev st) (u @ v)" using u(3) v(3) by simp
  ultimately show ?case by blast
next
  case (Alt r1 r2)
  from Alt.prems have "st' \<in> set (ms db r1 st) \<or> st' \<in> set (ms db r2 st)" by simp
  then show ?case
  proof
    assume "st' \<in> set (ms db r1 st)"
    from Alt.IH(1) [OF this] show ?thesis by auto
  next
    assume "st' \<in> set (ms db r2 st)"
    from Alt.IH(2) [OF this] show ?thesis by auto
  qed
next
  case (Opt r)
  from Opt.prems have "st' \<in> set (ms db r st) \<or> st' = st" by auto
  then show ?case
  proof
    assume "st' \<in> set (ms db r st)"
    from Opt.IH [OF this] show ?thesis by auto
  next
    assume "st' = st"
    then show ?thesis by simp
  qed
next
  case (Rep as lo hi)
  then obtain p' s' where ps: "(p', s') \<in> set (rep_ends (in_class db as) lo hi (prev st) (rest st))"
    and st': "st' = st\<lparr>prev := p', rest := s'\<rparr>" by auto
  from rep_ends_sound [OF ps] st' show ?case by auto
next
  case (Grp r)
  then obtain m where m: "m \<in> set (ms db r st)" "st' = m\<lparr>cap := Some (consumed st m)\<rparr>" by auto
  from Grp.IH [OF m(1)] m(2) show ?case by auto
qed

lemma search_from_sound:
  "search_from db r p s = Some m \<Longrightarrow>
   \<exists>p' u s'. s = u @ s' \<and> m \<in> set (ms db r \<lparr>prev = p', rest = s', cap = None\<rparr>)"
proof (induction s arbitrary: p)
  case Nil
  then have "m \<in> set (ms db r \<lparr>prev = p, rest = [], cap = None\<rparr>)"
    by (auto simp: match_at_def split: list.splits)
  then have "[] = [] @ [] \<and> m \<in> set (ms db r \<lparr>prev = p, rest = [], cap = None\<rparr>)" by simp
  then show ?case by (intro exI)
next
  case (Cons c cs)
  show ?case
  proof (cases "match_at db r p (c # cs)")
    case None
    with Cons.prems have "search_from db r (Some c) cs = Some m" by simp
    from Cons.IH [OF this] obtain p' u s' where
      "cs = u @ s'" "m \<in> set (ms db r \<lparr>prev = p', rest = s', cap = None\<rparr>)" by blast
    then have "c # cs = (c # u) @ s' \<and> m \<in> set (ms db r \<lparr>prev = p', rest = s', cap = None\<rparr>)"
      by simp
    then show ?thesis by (intro exI)
  next
    case (Some m')
    with Cons.prems have "m' = m" by simp
    with Some have "m \<in> set (ms db r \<lparr>prev = p, rest = c # cs, cap = None\<rparr>)"
      by (auto simp: match_at_def split: list.splits)
    then have "c # cs = [] @ (c # cs) \<and> m \<in> set (ms db r \<lparr>prev = p, rest = c # cs, cap = None\<rparr>)"
      by simp
    then show ?thesis by (intro exI)
  qed
qed

lemma ISBN_RE_cap:
  assumes "m \<in> set (ms db ISBN_RE st)"
  shows "\<exists>g u v. cap m = Some g \<and> g \<in> lang db (Alt isbn13_shape isbn10_shape) \<and>
           rest st = u @ g @ v"
proof -
  let ?G = "Alt isbn13_shape isbn10_shape"
  from assms obtain st1 st2 st3 where
    s1: "st1 \<in> set (ms db Bnd st)" and s2: "st2 \<in> set (ms db (Opt isbn_prefix) st1)" and
    s3: "st3 \<in> set (ms db (Grp ?G) st2)" and m: "m \<in> set (ms db Bnd st3)"
    unfolding ISBN_RE_def by (auto simp del: ms.simps(4,7,9))
  from s3 obtain x where x: "x \<in> set (ms db ?G st2)" "st3 = x\<lparr>cap := Some (consumed st2 x)\<rparr>"
    by auto
  from ms_sound [OF x(1)] obtain w where w: "w \<in> lang db ?G" "rest st2 = w @ rest x" by blast
  from ms_sound [OF s2] obtain u where u: "rest st1 = u @ rest st2" by blast
  from s1 have "st1 = st" by (simp split: if_splits)
  with u w(2) have a: "rest st = u @ w @ rest x" by simp
  have b: "consumed st2 x = w" using w(2) by (simp add: consumed_def)
  from m have "m = st3" by (simp split: if_splits)
  with x(2) b have "cap m = Some w" by simp
  with w(1) a have "cap m = Some w \<and> w \<in> lang db ?G \<and> rest st = u @ w @ rest x" by simp
  then show ?thesis by (intro exI)
qed

lemma find_isbn_in_text_cases:
  "find_isbn_in_text db text = Inr None \<or>
   (\<exists>g u v. text = u @ g @ v \<and> g \<in> lang db (Alt isbn13_shape isbn10_shape) \<and>
        find_isbn_in_text db text = Inr (Some (normalize_isbn db g)))"
proof (cases "re_search db ISBN_RE text")
  case None
  then show ?thesis by (simp add: find_isbn_in_text_def)
next
  case (Some m)
  then have "search_from db ISBN_RE None text = Some m" by (simp add: re_search_def)
  from search_from_sound [OF this] obtain p' u s' where t: "text = u @ s'"
    and m: "m \<in> set (ms db ISBN_RE \<lparr>prev = p', rest = s', cap = None\<rparr>)"
    by blast
  from ISBN_RE_cap [OF m] obtain g u' v where
    g: "cap m = Some g" "g \<in> lang db (Alt isbn13_shape isbn10_shape)"
       "rest \<lparr>prev = p', rest = s', cap = None\<rparr> = u' @ g @ v" by blast
  from g(3) have s': "s' = u' @ g @ v" by simp
  from t s' have "text = (u @ u') @ g @ v" by simp
  moreover have "find_isbn_in_text db text = Inr (Some (normalize_isbn db g))"
    using Some g(1) by (simp add: find_isbn_in_text_def)
  ultimately have "text = (u @ u') @ g @ v \<and> g \<in> lang db (Alt isbn13_shape isbn10_shape) \<and>
        find_isbn_in_text db text = Inr (Some (normalize_isbn db g))" using g(2) by simp
  then have "\<exists>g u v. text = u @ g @ v \<and> g \<in> lang db (Alt isbn13_shape isbn10_shape) \<and>
        find_isbn_in_text db text = Inr (Some (normalize_isbn db g))" by (intro exI)
  then show ?thesis by (rule disjI2)
qed

section \<open>The shape of a candidate\<close>

lemma body_ok_append [simp]: "body_ok db (u @ v) = (body_ok db u \<and> body_ok db v)"
  by (simp add: body_ok_def)

lemma ndec_append [simp]: "ndec db (u @ v) = ndec db u + ndec db v"
  by (simp add: ndec_def)

lemma lang_sep: "w \<in> lang db sep \<Longrightarrow> body_ok db w"
  by (auto simp: sep_def body_ok_def in_class_def list_all_iff)

lemma lang_digits: "w \<in> lang db (Rep [Digit] (Suc 0) hi) \<Longrightarrow> body_ok db w \<and> 1 \<le> ndec db w"
  by (auto simp: body_ok_def ndec_def in_class_def list_all_iff)

lemma lang_isbn10:
  assumes "g \<in> lang db isbn10_shape"
  shows "\<exists>w c. g = w @ [c] \<and> (ascii_digit c \<or> c = 88 \<or> c = 120) \<and>
           body_ok db w \<and> 3 \<le> ndec db w"
proof -
  from assms obtain u1 s1 u2 s2 u3 s3 c where g: "g = u1 @ s1 @ u2 @ s2 @ u3 @ s3 @ [c]"
    and u: "u1 \<in> lang db (Rep [Digit] (Suc 0) (Some 5))" "u2 \<in> lang db (Rep [Digit] (Suc 0) None)"
      "u3 \<in> lang db (Rep [Digit] (Suc 0) None)"
    and s: "s1 \<in> lang db sep" "s2 \<in> lang db sep" "s3 \<in> lang db sep"
    and c: "in_class db [Range CHR ''0'' CHR ''9'', Lit CHR ''X'', Lit CHR ''x''] c"
    unfolding isbn10_shape_def by (auto simp del: lang.simps(8))
  let ?w = "u1 @ s1 @ u2 @ s2 @ u3 @ s3"
  have "g = ?w @ [c]" using g by simp
  moreover have "ascii_digit c \<or> c = 88 \<or> c = 120" using c by (simp add: in_class_keep)
  moreover have "body_ok db ?w"
    using lang_digits [OF u(1)] lang_digits [OF u(2)] lang_digits [OF u(3)]
      lang_sep [OF s(1)] lang_sep [OF s(2)] lang_sep [OF s(3)] by simp
  moreover have "3 \<le> ndec db ?w"
    using lang_digits [OF u(1)] lang_digits [OF u(2)] lang_digits [OF u(3)] by simp
  ultimately show ?thesis by blast
qed

lemma lang_isbn13:
  assumes "g \<in> lang db isbn13_shape"
  shows "\<exists>c w. g = 57 # 55 # c # w \<and> (c = 56 \<or> c = 57) \<and> body_ok db w \<and> 4 \<le> ndec db w"
proof -
  from assms obtain c3 s0 u1 s1 u2 s2 u3 s3 c where
    g: "g = 57 # 55 # c3 # s0 @ u1 @ s1 @ u2 @ s2 @ u3 @ s3 @ [c]"
    and c3: "c3 = 56 \<or> c3 = 57"
    and u: "u1 \<in> lang db (Rep [Digit] (Suc 0) (Some 5))" "u2 \<in> lang db (Rep [Digit] (Suc 0) None)"
      "u3 \<in> lang db (Rep [Digit] (Suc 0) None)"
    and s: "s0 \<in> lang db sep" "s1 \<in> lang db sep" "s2 \<in> lang db sep" "s3 \<in> lang db sep"
    and c: "is_decimal db c"
    unfolding isbn13_shape_def lit_def by (auto simp del: lang.simps(8) simp: in_class_def)
  let ?w = "s0 @ u1 @ s1 @ u2 @ s2 @ u3 @ s3 @ [c]"
  have "g = 57 # 55 # c3 # ?w" using g by simp
  moreover have "body_ok db [c]" using c by (simp add: body_ok_def)
  then have "body_ok db ?w"
    using lang_digits [OF u(1)] lang_digits [OF u(2)] lang_digits [OF u(3)]
      lang_sep [OF s(1)] lang_sep [OF s(2)] lang_sep [OF s(3)] lang_sep [OF s(4)] by simp
  moreover have "ndec db [c] = 1" using c by (simp add: ndec_def)
  then have "4 \<le> ndec db ?w"
    using lang_digits [OF u(1)] lang_digits [OF u(2)] lang_digits [OF u(3)] by simp
  ultimately show ?thesis using c3 by blast
qed

lemma filter_keep_body:
  "body_ok db w \<Longrightarrow>
   filter (\<lambda>c. ascii_digit c \<or> c = 88 \<or> c = 120) w = filter ascii_digit w"
  by (rule filter_cong)
     (auto simp: body_ok_def list_all_iff is_decimal_def is_space_def ascii_digit_def
           split: if_splits)

lemma map_up_digits:
  "map (\<lambda>c. if c = 120 then 88 else c) (filter ascii_digit w) = filter ascii_digit w"
  by (induction w) (auto simp: ascii_digit_def)

lemma normalize_isbn10:
  assumes "g \<in> lang db isbn10_shape"
  shows "\<exists>w c c'. g = w @ [c] \<and> body_ok db w \<and> 3 \<le> ndec db w \<and> (ascii_digit c' \<or> c' = 88) \<and>
           normalize_isbn db g = filter ascii_digit w @ [c']"
proof -
  from lang_isbn10 [OF assms] obtain w c where
    g: "g = w @ [c]" and c: "ascii_digit c \<or> c = 88 \<or> c = 120" and w: "body_ok db w" "3 \<le> ndec db w"
    by blast
  let ?c = "if c = 120 then 88 else c"
  have n: "normalize_isbn db g = filter ascii_digit w @ [?c]"
    using c by (simp add: g normalize_isbn_filter filter_keep_body [OF w(1)] map_up_digits)
  have "ascii_digit ?c \<or> ?c = 88" using c by auto
  with g w n show ?thesis by blast
qed

lemma normalize_isbn13:
  assumes "g \<in> lang db isbn13_shape"
  shows "\<exists>c w. g = 57 # 55 # c # w \<and> (c = 56 \<or> c = 57) \<and> body_ok db w \<and> 4 \<le> ndec db w \<and>
           normalize_isbn db g = 57 # 55 # c # filter ascii_digit w"
proof -
  from lang_isbn13 [OF assms] obtain c w where
    g: "g = 57 # 55 # c # w" and c: "c = 56 \<or> c = 57" and w: "body_ok db w" "4 \<le> ndec db w"
    by blast
  have k: "ascii_digit 57" "ascii_digit 55" "ascii_digit c"
    using c by (auto simp: ascii_digit_def)
  have "normalize_isbn db g = 57 # 55 # c # filter ascii_digit w"
    using c k by (auto simp: g normalize_isbn_filter filter_keep_body [OF w(1)] map_up_digits)
  with g c w show ?thesis by blast
qed

lemma filter_digits_ascii_text:
  assumes "body_ok db w" and "list_all (\<lambda>c. is_decimal db c \<longrightarrow> c < 128) w"
  shows "length (filter ascii_digit w) = ndec db w"
proof -
  have "filter ascii_digit w = filter (is_decimal db) w"
    using assms(2) by (intro filter_cong) (auto simp: list_all_iff is_decimal_def ascii_digit_def)
  then show ?thesis by (simp add: ndec_def)
qed

lemma all_snoc:
  "xs \<noteq> [] \<Longrightarrow> list_all P xs \<Longrightarrow>
   \<exists>ds c. xs = ds @ [c] \<and> list_all P ds \<and> P c \<and> length xs = Suc (length ds)"
  by (cases xs rule: rev_cases) auto

lemma candidate_forms:
  assumes "find_isbn_in_text db text = Inr (Some r)"
  shows "\<exists>ds c. r = ds @ [c] \<and> list_all ascii_digit ds \<and> (ascii_digit c \<or> c = 88) \<and>
           (list_all (\<lambda>c. is_decimal db c \<longrightarrow> c < 128) text \<longrightarrow> 3 \<le> length ds)"
proof -
  let ?A = "list_all (\<lambda>c. is_decimal db c \<longrightarrow> c < 128)"
  from find_isbn_in_text_cases [of db "text"] assms obtain g u v where
    t: "text = u @ g @ v" and g: "g \<in> lang db (Alt isbn13_shape isbn10_shape)"
    and r: "r = normalize_isbn db g" by auto
  from g have "g \<in> lang db isbn13_shape \<or> g \<in> lang db isbn10_shape" by simp
  then show ?thesis
  proof
    assume "g \<in> lang db isbn13_shape"
    from normalize_isbn13 [OF this] obtain c w where
      gw: "g = 57 # 55 # c # w" and c: "c = 56 \<or> c = 57" and w: "body_ok db w" "4 \<le> ndec db w"
      and n: "normalize_isbn db g = 57 # 55 # c # filter ascii_digit w" by blast
    have rr: "r = 57 # 55 # c # filter ascii_digit w" using r n by simp
    have all: "list_all ascii_digit r" unfolding rr using c by (auto simp: ascii_digit_def list_all_iff)
    have ne: "r \<noteq> []" unfolding rr by simp
    from all_snoc [OF ne all] obtain ds d where
      d: "r = ds @ [d]" "list_all ascii_digit ds" "ascii_digit d" "length r = Suc (length ds)"
      by blast
    have "?A text \<longrightarrow> 3 \<le> length ds"
    proof
      assume "?A text"
      with t gw have "?A w" by simp
      from filter_digits_ascii_text [OF w(1) this] w(2) d(4) show "3 \<le> length ds"
        unfolding rr by simp
    qed
    with d(1,2,3) show ?thesis by blast
  next
    assume "g \<in> lang db isbn10_shape"
    from normalize_isbn10 [OF this] obtain w c c' where
      gw: "g = w @ [c]" and w: "body_ok db w" "3 \<le> ndec db w"
      and c: "ascii_digit c' \<or> c' = 88" and n: "normalize_isbn db g = filter ascii_digit w @ [c']"
      by blast
    have "?A text \<longrightarrow> 3 \<le> length (filter ascii_digit w)"
    proof
      assume "?A text"
      with t gw have "?A w" by simp
      from filter_digits_ascii_text [OF w(1) this] w(2) show "3 \<le> length (filter ascii_digit w)"
        by simp
    qed
    moreover have "list_all ascii_digit (filter ascii_digit w)" by (simp add: list_all_iff)
    moreover have "r = filter ascii_digit w @ [c']" using r n by simp
    ultimately show ?thesis using c by blast
  qed
qed

lemmas eval_defs = ISBN_RE_def isbn_prefix_def isbn13_shape_def isbn10_shape_def sep_def lit_def
  in_class_def is_decimal_def is_space_def is_word_def ascii_digit_def ascii_upper_letter_def
  ascii_lower_letter_def at_boundary_def is_word_opt_def consumed_def codes_def match_at_def
  re_search_def find_isbn_in_text_def

lemma find_example_x:
  "find_isbn_in_text db (codes ''ISBN 0-306-40615-x'') = Inr (Some (codes ''030640615X''))"
  by (simp add: eval_defs normalize_isbn_filter)

section \<open>The claims about the pattern matcher\<close>

text \<open>
  C1, as amended. The specification gives a candidate exactly 13 digits that begin with 978
  or 979, or exactly 10 characters; the pattern counts no digits. What holds: a candidate
  is not empty, all its characters but the last are digits 0 to 9, and the last is a digit
  or X; it has at least 4 characters when every decimal digit of the text is an ASCII
  digit.
\<close>

theorem candidate_shape:
  assumes "find_isbn_in_text db text = Inr (Some r)"
  shows "r \<noteq> [] \<and> list_all ascii_digit (butlast r) \<and>
         (ascii_digit (last r) \<or> last r = of_char CHR ''X'') \<and>
         (list_all (\<lambda>c. is_decimal db c \<longrightarrow> c < 128) text \<longrightarrow> 4 \<le> length r)"
proof -
  from candidate_forms [OF assms] obtain ds c where
    r: "r = ds @ [c]" and ds: "list_all ascii_digit ds" and c: "ascii_digit c \<or> c = 88"
    and n: "list_all (\<lambda>c. is_decimal db c \<longrightarrow> c < 128) text \<longrightarrow> 3 \<le> length ds"
    by blast
  show ?thesis unfolding r using ds c n by simp
qed

theorem candidate_shape_witness:
  "\<forall>db. find_isbn_in_text db (codes ''ISBN 0-306-40615-x'') = Inr (Some (codes ''030640615X'')) \<and>
        codes ''030640615X'' \<noteq> [] \<and> list_all ascii_digit (butlast (codes ''030640615X'')) \<and>
        last (codes ''030640615X'') = of_char CHR ''X'' \<and> 4 \<le> length (codes ''030640615X'')"
proof (intro allI)
  fix db
  have f: "find_isbn_in_text db (codes ''ISBN 0-306-40615-x'') = Inr (Some (codes ''030640615X''))"
    by (rule find_example_x)
  have a: "list_all (\<lambda>c. is_decimal db c \<longrightarrow> c < 128) (codes ''ISBN 0-306-40615-x'')"
    by (simp add: codes_def)
  from candidate_shape [OF f] a f
  show "find_isbn_in_text db (codes ''ISBN 0-306-40615-x'') = Inr (Some (codes ''030640615X'')) \<and>
        codes ''030640615X'' \<noteq> [] \<and> list_all ascii_digit (butlast (codes ''030640615X'')) \<and>
        last (codes ''030640615X'') = of_char CHR ''X'' \<and> 4 \<le> length (codes ''030640615X'')"
    by (simp add: codes_def)
qed

theorem candidate_shape_counterexample:
  "\<forall>db. find_isbn_in_text db (codes ''2024'') = Inr (Some (codes ''2024'')) \<and>
        \<not> spec_candidate_form (codes ''2024'')"
  by (simp add: eval_defs normalize_isbn_filter spec_candidate_form_def)

text \<open>
  C7. Normalisation keeps the characters that are digits 0 to 9, X or x, in their order,
  and puts the result in upper case; so a normalised string, and with it every candidate
  that the matcher returns, holds digits and the upper-case X only.
\<close>

theorem normalize_isbn_digits_and_X:
  "normalize_isbn db raw =
     str_upper db (filter (\<lambda>c. ascii_digit c \<or> c = of_char CHR ''X'' \<or> c = of_char CHR ''x'') raw) \<and>
   list_all (\<lambda>c. ascii_digit c \<or> c = of_char CHR ''X'') (normalize_isbn db raw) \<and>
   (find_isbn_in_text db text = Inr (Some r) \<longrightarrow>
      list_all (\<lambda>c. ascii_digit c \<or> c = of_char CHR ''X'') r)"
proof (intro conjI impI)
  show "normalize_isbn db raw =
     str_upper db (filter (\<lambda>c. ascii_digit c \<or> c = of_char CHR ''X'' \<or> c = of_char CHR ''x'') raw)"
    by (simp add: normalize_isbn_def re_sub_NotChars in_class_keep)
  show "list_all (\<lambda>c. ascii_digit c \<or> c = of_char CHR ''X'') (normalize_isbn db raw)"
    by (auto simp: normalize_isbn_filter list_all_iff)
next
  assume "find_isbn_in_text db text = Inr (Some r)"
  from candidate_forms [OF this] obtain ds c where
    "r = ds @ [c]" "list_all ascii_digit ds" "ascii_digit c \<or> c = 88" by blast
  then show "list_all (\<lambda>c. ascii_digit c \<or> c = of_char CHR ''X'') r"
    by (auto simp: list_all_iff)
qed

theorem normalize_isbn_digits_and_X_witness:
  "\<forall>db. normalize_isbn db (codes ''0-306-40615-x'') = codes ''030640615X'' \<and>
        find_isbn_in_text db (codes ''ISBN 0-306-40615-x'') = Inr (Some (codes ''030640615X'')) \<and>
        list_all (\<lambda>c. ascii_digit c \<or> c = of_char CHR ''X'') (codes ''030640615X'')"
proof (intro allI)
  fix db
  have f: "find_isbn_in_text db (codes ''ISBN 0-306-40615-x'') = Inr (Some (codes ''030640615X''))"
    by (rule find_example_x)
  have n: "normalize_isbn db (codes ''0-306-40615-x'') = codes ''030640615X''"
    by (simp add: normalize_isbn_filter codes_def ascii_digit_def)
  have l: "list_all (\<lambda>c. ascii_digit c \<or> c = of_char CHR ''X'') (codes ''030640615X'')"
    using normalize_isbn_digits_and_X
      [of db "codes ''0-306-40615-x''" "codes ''ISBN 0-306-40615-x''" "codes ''030640615X''"] f
    by blast
  from n f l
  show "normalize_isbn db (codes ''0-306-40615-x'') = codes ''030640615X'' \<and>
        find_isbn_in_text db (codes ''ISBN 0-306-40615-x'') = Inr (Some (codes ''030640615X'')) \<and>
        list_all (\<lambda>c. ascii_digit c \<or> c = of_char CHR ''X'') (codes ''030640615X'')"
    by (intro conjI)
qed

text \<open>
  C10. In a candidate that the matcher returns, X stands at most once and only as the last
  character, and the lower-case x does not occur.
\<close>

theorem candidate_X_only_last:
  assumes "find_isbn_in_text db text = Inr (Some r)"
  shows "of_char CHR ''X'' \<notin> set (butlast r) \<and> of_char CHR ''x'' \<notin> set r \<and>
         count_list r (of_char CHR ''X'') \<le> 1"
proof -
  from candidate_forms [OF assms] obtain ds c where
    r: "r = ds @ [c]" and ds: "list_all ascii_digit ds" and c: "ascii_digit c \<or> c = 88"
    by blast
  have a: "88 \<notin> set ds" "120 \<notin> set ds" using ds by (auto simp: list_all_iff ascii_digit_def)
  then have "count_list ds 88 = 0" by (simp add: count_list_0_iff)
  moreover have "c \<noteq> 120" using c by (auto simp: ascii_digit_def)
  ultimately show ?thesis unfolding r using a by simp
qed

theorem candidate_X_only_last_witness:
  "\<forall>db. find_isbn_in_text db (codes ''ISBN 0-306-40615-x'') = Inr (Some (codes ''030640615X'')) \<and>
        of_char CHR ''X'' \<notin> set (butlast (codes ''030640615X'')) \<and>
        of_char CHR ''x'' \<notin> set (codes ''030640615X'') \<and>
        count_list (codes ''030640615X'') (of_char CHR ''X'') \<le> 1"
proof (intro allI)
  fix db
  have f: "find_isbn_in_text db (codes ''ISBN 0-306-40615-x'') = Inr (Some (codes ''030640615X''))"
    by (rule find_example_x)
  from candidate_X_only_last [OF f] f
  show "find_isbn_in_text db (codes ''ISBN 0-306-40615-x'') = Inr (Some (codes ''030640615X'')) \<and>
        of_char CHR ''X'' \<notin> set (butlast (codes ''030640615X'')) \<and>
        of_char CHR ''x'' \<notin> set (codes ''030640615X'') \<and>
        count_list (codes ''030640615X'') (of_char CHR ''X'') \<le> 1"
    by simp
qed

section \<open>The adapters and the Book\<close>

lemma extract_pdf_metadata_total: "\<exists>m. extract_pdf_metadata w fp = Inr m"
  by (simp add: extract_pdf_metadata_def try_except_def Let_def split: sum.splits)

lemma extract_epub_metadata_total: "\<exists>m. extract_epub_metadata w fp = Inr m"
  by (simp add: extract_epub_metadata_def try_except_def split: sum.splits)

lemma extract_isbn_from_pdf_total: "\<exists>v. extract_isbn_from_pdf db w fp n = Inr v"
  by (simp add: extract_isbn_from_pdf_def try_except_def split: sum.splits)

lemma extract_isbn_from_epub_total: "\<exists>v. extract_isbn_from_epub db w fp = Inr v"
  by (simp add: extract_isbn_from_epub_def try_except_def split: sum.splits)

lemma codes_neq [simp]:
  "codes ''PDF'' \<noteq> codes ''EPUB''" "codes ''EPUB'' \<noteq> codes ''PDF''"
  "codes ''Unknown'' \<noteq> codes ''PDF''" "codes ''Unknown'' \<noteq> codes ''EPUB''"
  "codes ''.pdf'' \<noteq> codes ''.epub''" "codes ''.epub'' \<noteq> codes ''.pdf''"
  by (simp_all add: codes_def)

lemma metadata_dispatch:
  "\<exists>v. dict_get (metadata_extractors w) fmt (\<lambda>self. (Inr Map.empty, self)) s =
         (Inr v, s\<lparr>calls := calls s @ md_probe fmt\<rparr>)"
  using extract_pdf_metadata_total [of w "filepath s"] extract_epub_metadata_total [of w "filepath s"]
  by (auto simp: dict_get_def metadata_extractors_def probed_def md_probe_def)

lemma isbn_dispatch:
  "\<exists>v. dict_get (isbn_extractors db w) fmt (\<lambda>self. (Inr None, self)) s =
         (Inr v, s\<lparr>calls := calls s @ isbn_probe fmt\<rparr>)"
  using extract_isbn_from_pdf_total [of db w "filepath s" 10] extract_isbn_from_epub_total [of db w "filepath s"]
  by (auto simp: dict_get_def isbn_extractors_def probed_def isbn_probe_def)

lemma format_eq:
  "format db self = (Inr (format_of db self), self\<lparr>format_cache := Some (format_of db self)\<rparr>)"
  by (simp add: format_def cached_property_def format_of_def split: option.splits)

lemma metadata_eq:
  "\<exists>v. metadata db w self =
     (Inr v,
      case metadata_cache self of
        Some m \<Rightarrow> self
      | None \<Rightarrow> self\<lparr>format_cache := Some (format_of db self),
                     calls := calls self @ md_probe (format_of db self),
                     metadata_cache := Some v\<rparr>)"
proof (cases "metadata_cache self")
  case None
  from metadata_dispatch [of w "format_of db self" "self\<lparr>format_cache := Some (format_of db self)\<rparr>"]
  obtain v where "dict_get (metadata_extractors w) (format_of db self) (\<lambda>self. (Inr Map.empty, self))
      (self\<lparr>format_cache := Some (format_of db self)\<rparr>) =
      (Inr v, self\<lparr>format_cache := Some (format_of db self), calls := calls self @ md_probe (format_of db self)\<rparr>)"
    by auto
  with None show ?thesis by (simp add: metadata_def cached_property_def format_eq)
next
  case (Some m)
  then show ?thesis by (simp add: metadata_def cached_property_def)
qed

lemma isbn_eq:
  "\<exists>v. isbn db w self =
     (Inr v,
      case isbn_cache self of
        Some m \<Rightarrow> self
      | None \<Rightarrow> self\<lparr>format_cache := Some (format_of db self),
                     calls := calls self @ isbn_probe (format_of db self),
                     isbn_cache := Some v\<rparr>)"
proof (cases "isbn_cache self")
  case None
  from isbn_dispatch [of db w "format_of db self" "self\<lparr>format_cache := Some (format_of db self)\<rparr>"]
  obtain v where "dict_get (isbn_extractors db w) (format_of db self) (\<lambda>self. (Inr None, self))
      (self\<lparr>format_cache := Some (format_of db self)\<rparr>) =
      (Inr v, self\<lparr>format_cache := Some (format_of db self), calls := calls self @ isbn_probe (format_of db self)\<rparr>)"
    by auto
  with None show ?thesis by (simp add: isbn_def cached_property_def format_eq)
next
  case (Some m)
  then show ?thesis by (simp add: isbn_def cached_property_def)
qed

lemma title_eq:
  "\<exists>v. title db w self =
     (Inr v,
      case title_cache self of
        Some t \<Rightarrow> self
      | None \<Rightarrow> (snd (metadata db w self))\<lparr>title_cache := Some v\<rparr>)"
proof (cases "title_cache self")
  case None
  from metadata_eq [of db w self] obtain m s where "metadata db w self = (Inr m, s)" by blast
  with None show ?thesis by (simp add: title_def cached_property_def)
next
  case (Some t)
  then show ?thesis by (simp add: title_def cached_property_def)
qed

lemma author_eq:
  "\<exists>v. author db w self =
     (Inr v,
      case author_cache self of
        Some t \<Rightarrow> self
      | None \<Rightarrow> (snd (metadata db w self))\<lparr>author_cache := Some v\<rparr>)"
proof (cases "author_cache self")
  case None
  from metadata_eq [of db w self] obtain m s where "metadata db w self = (Inr m, s)" by blast
  with None show ?thesis by (simp add: author_def cached_property_def)
next
  case (Some t)
  then show ?thesis by (simp add: author_def cached_property_def)
qed

text \<open>A second read returns the stored value and leaves the instance as it is.\<close>

lemma cached_property_again:
  assumes "cached_property lookup store func self = (Inr v, s)"
    and "\<And>x s'. lookup (store x s') = Some x"
  shows "cached_property lookup store func' s = (Inr v, s)"
proof (cases "lookup self")
  case (Some x)
  with assms(1) show ?thesis by (auto simp: cached_property_def)
next
  case None
  with assms(1) obtain s' where "func self = (Inr v, s')" "s = store v s'"
    by (auto simp: cached_property_def split: prod.splits sum.splits)
  with assms(2) show ?thesis by (simp add: cached_property_def)
qed

lemma format_again: "format db self = (v, s) \<Longrightarrow> format db s = (v, s)"
  using format_eq [of db self] unfolding format_def
  by (auto intro!: cached_property_again)

lemma metadata_again: "metadata db w self = (v, s) \<Longrightarrow> metadata db w' s = (v, s)"
  using metadata_eq [of db w self] unfolding metadata_def
  by (auto intro!: cached_property_again)

lemma title_again: "title db w self = (v, s) \<Longrightarrow> title db w' s = (v, s)"
  using title_eq [of db w self] unfolding title_def
  by (auto intro!: cached_property_again)

lemma author_again: "author db w self = (v, s) \<Longrightarrow> author db w' s = (v, s)"
  using author_eq [of db w self] unfolding author_def
  by (auto intro!: cached_property_again)

lemma isbn_again: "isbn db w self = (v, s) \<Longrightarrow> isbn db w' s = (v, s)"
  using isbn_eq [of db w self] unfolding isbn_def
  by (auto intro!: cached_property_again)

lemma probe_counts [simp]:
  "length (filter is_md (md_probe fmt)) \<le> 1" "filter is_isbn (md_probe fmt) = []"
  "length (filter is_isbn (isbn_probe fmt)) \<le> 1" "filter is_md (isbn_probe fmt) = []"
  by (simp_all add: md_probe_def isbn_probe_def is_md_def is_isbn_def)

lemma once_inv_format: "once_inv b \<Longrightarrow> once_inv (snd (format db b))"
  by (simp add: format_eq once_inv_def)

lemma once_inv_metadata: "once_inv b \<Longrightarrow> once_inv (snd (metadata db w b))"
  using metadata_eq [of db w b] probe_counts(1) [of "format_of db b"]
  by (auto simp: once_inv_def split: option.splits if_splits)

lemma once_inv_isbn: "once_inv b \<Longrightarrow> once_inv (snd (isbn db w b))"
  using isbn_eq [of db w b] probe_counts(3) [of "format_of db b"]
  by (auto simp: once_inv_def split: option.splits if_splits)

lemma once_inv_title: "once_inv b \<Longrightarrow> once_inv (snd (title db w b))"
  using title_eq [of db w b] once_inv_metadata [of b db w]
  by (auto simp: once_inv_def split: option.splits)

lemma once_inv_author: "once_inv b \<Longrightarrow> once_inv (snd (author db w b))"
  using author_eq [of db w b] once_inv_metadata [of b db w]
  by (auto simp: once_inv_def split: option.splits)

lemma once_inv_read: "once_inv b \<Longrightarrow> once_inv (read_attr db r b)"
proof (cases r)
  case (Pair a w)
  assume "once_inv b"
  then show ?thesis unfolding Pair
    by (cases a)
       (simp_all add: once_inv_format once_inv_metadata once_inv_title once_inv_author once_inv_isbn)
qed

lemma once_inv_reads: "once_inv b \<Longrightarrow> once_inv (reads db rs b)"
  unfolding reads_def by (induction rs arbitrary: b) (simp_all add: once_inv_read)

lemma once_inv_new: "once_inv (new_Book fp)"
  by (simp add: once_inv_def new_Book_def)

text \<open>A Book whose format is Unknown: no read calls an extraction method.\<close>

lemma format_of_stored [simp]: "format_of db (b\<lparr>format_cache := Some v\<rparr>) = v"
  by (simp add: format_of_def)

lemma format_of_other [simp]:
  "format_of db (b\<lparr>calls := c\<rparr>) = format_of db b"
  "format_of db (b\<lparr>metadata_cache := m\<rparr>) = format_of db b"
  "format_of db (b\<lparr>title_cache := t\<rparr>) = format_of db b"
  "format_of db (b\<lparr>author_cache := t\<rparr>) = format_of db b"
  "format_of db (b\<lparr>isbn_cache := t\<rparr>) = format_of db b"
  by (simp_all add: format_of_def split: option.splits)

lemma md_probe_Unknown [simp]: "md_probe (codes ''Unknown'') = []" "isbn_probe (codes ''Unknown'') = []"
  by (simp_all add: md_probe_def isbn_probe_def)

lemma unknown_inv_format: "unknown_inv db b \<Longrightarrow> unknown_inv db (snd (format db b))"
  by (simp add: format_eq unknown_inv_def)

lemma unknown_inv_metadata: "unknown_inv db b \<Longrightarrow> unknown_inv db (snd (metadata db w b))"
  using metadata_eq [of db w b]
  by (auto simp: unknown_inv_def split: option.splits)

lemma unknown_inv_isbn: "unknown_inv db b \<Longrightarrow> unknown_inv db (snd (isbn db w b))"
  using isbn_eq [of db w b]
  by (auto simp: unknown_inv_def split: option.splits)

lemma unknown_inv_title: "unknown_inv db b \<Longrightarrow> unknown_inv db (snd (title db w b))"
  using title_eq [of db w b] unknown_inv_metadata [of db b w]
  by (auto simp: unknown_inv_def split: option.splits)

lemma unknown_inv_author: "unknown_inv db b \<Longrightarrow> unknown_inv db (snd (author db w b))"
  using author_eq [of db w b] unknown_inv_metadata [of db b w]
  by (auto simp: unknown_inv_def split: option.splits)

lemma unknown_inv_read: "unknown_inv db b \<Longrightarrow> unknown_inv db (read_attr db r b)"
proof (cases r)
  case (Pair a w)
  assume "unknown_inv db b"
  then show ?thesis unfolding Pair
    by (cases a)
       (simp_all add: unknown_inv_format unknown_inv_metadata unknown_inv_title
          unknown_inv_author unknown_inv_isbn)
qed

lemma unknown_inv_reads: "unknown_inv db b \<Longrightarrow> unknown_inv db (reads db rs b)"
  unfolding reads_def by (induction rs arbitrary: b) (simp_all add: unknown_inv_read)

lemma candidate_truthy: "find_isbn_in_text db s = Inr (Some r) \<Longrightarrow> truthy (Some r)"
  using candidate_forms [of db s r] by (auto simp: truthy_def)

lemma scan_pages_none: "list_all (no_isbn_page db) ps \<Longrightarrow> scan_pages db ps = Inr None"
  by (induction ps) (auto simp: no_isbn_page_def truthy_def split: sum.splits)

lemma scan_pages_first:
  assumes "list_all (no_isbn_page db) pre" and "find_isbn_in_text db (or_empty t) = Inr (Some r)"
  shows "scan_pages db (pre @ Inr t # post) = Inr (Some r)"
  using assms(1)
proof (induction pre)
  case Nil
  show ?case using assms(2) candidate_truthy [OF assms(2)] by simp
next
  case (Cons p pre)
  then show ?case by (auto simp: no_isbn_page_def truthy_def split: sum.splits)
qed

lemma scan_items_none: "list_all (no_isbn_item db w) xs \<Longrightarrow> scan_items db w xs = Inr None"
  by (induction xs) (auto simp: no_isbn_item_def truthy_def split: sum.splits)

lemma scan_items_first:
  assumes "list_all (no_isbn_item db w) pre"
    and "find_isbn_in_text db (decode_utf8_ignore w c) = Inr (Some r)"
  shows "scan_items db w (pre @ Inr c # post) = Inr (Some r)"
  using assms(1)
proof (induction pre)
  case Nil
  show ?case using assms(2) candidate_truthy [OF assms(2)] by simp
next
  case (Cons p pre)
  then show ?case by (auto simp: no_isbn_item_def truthy_def split: sum.splits)
qed

lemma fetch_all_map_Inr: "fetch_all (map Inr xs) = Inr xs"
  by (induction xs) simp_all

lemma format_of_new:
  "format_of db (new_Book fp) =
     (if str_lower db (path_suffix fp) = codes ''.pdf'' then codes ''PDF''
      else if str_lower db (path_suffix fp) = codes ''.epub'' then codes ''EPUB''
      else codes ''Unknown'')"
  by (simp add: format_of_def new_Book_def formats_def dict_get_def)

lemma metadata_new:
  "fst (metadata db w (new_Book fp)) =
     (if format_of db (new_Book fp) = codes ''PDF'' then extract_pdf_metadata w fp
      else if format_of db (new_Book fp) = codes ''EPUB'' then extract_epub_metadata w fp
      else Inr Map.empty)"
  by (simp add: metadata_def cached_property_def format_eq metadata_extractors_def dict_get_def
        probed_def new_Book_def split: prod.splits sum.splits)

lemma isbn_new:
  "fst (isbn db w (new_Book fp)) =
     (if format_of db (new_Book fp) = codes ''PDF'' then extract_isbn_from_pdf db w fp 10
      else if format_of db (new_Book fp) = codes ''EPUB'' then extract_isbn_from_epub db w fp
      else Inr None)"
  by (simp add: isbn_def cached_property_def format_eq isbn_extractors_def dict_get_def
        probed_def new_Book_def split: prod.splits sum.splits)

lemma title_new:
  "fst (title db w (new_Book fp)) =
     (case fst (metadata db w (new_Book fp)) of
        Inl e \<Rightarrow> Inl e | Inr md \<Rightarrow> Inr (dict_get md (codes ''title'') None))"
  by (simp add: title_def cached_property_def new_Book_def split: prod.splits sum.splits)

lemma author_new:
  "fst (author db w (new_Book fp)) =
     (case fst (metadata db w (new_Book fp)) of
        Inl e \<Rightarrow> Inl e | Inr md \<Rightarrow> Inr (dict_get md (codes ''author'') None))"
  by (simp add: author_def cached_property_def new_Book_def split: prod.splits sum.splits)

lemma lower_paths:
  "str_lower db (path_suffix pdf_path) = codes ''.pdf''"
  "str_lower db (path_suffix epub_path) = codes ''.epub''"
  "str_lower db (path_suffix txt_path) = codes ''.txt''"
  by (simp_all add: pdf_path_def epub_path_def txt_path_def str_lower_def codes_def
        ascii_upper_letter_def)

lemma find_example_13:
  "find_isbn_in_text db (codes ''ISBN-13: 978-1-23456-789-7'') = Inr (Some (codes ''9781234567897''))"
  by (simp add: eval_defs normalize_isbn_filter)

lemma find_example_none:
  "find_isbn_in_text db [] = Inr None"
  "find_isbn_in_text db (codes ''Preface'') = Inr None"
  by (simp_all add: eval_defs)

lemma fetch_all_fails: "fetch_all (map Inr pre @ Inl e # later) = Inl e"
  by (induction pre) simp_all

lemma fetch_all_reaches:
  "fetch_all (map Inr pre @ Inr x # later) =
     (case fetch_all later of Inl e \<Rightarrow> Inl e | Inr vs \<Rightarrow> Inr (pre @ x # vs))"
  by (induction pre) (simp_all split: sum.splits)

lemma scan_pages_raises:
  "list_all (no_isbn_page db) pre \<Longrightarrow> scan_pages db (pre @ Inl e # post) = Inl e"
  by (induction pre) (auto simp: no_isbn_page_def truthy_def split: sum.splits)

lemma scan_items_raises:
  "list_all (no_isbn_item db w) pre \<Longrightarrow> scan_items db w (pre @ Inl e # post) = Inl e"
  by (induction pre) (auto simp: no_isbn_item_def truthy_def split: sum.splits)

lemma reader_world_simps [simp]:
  "PdfReader (reader_world reader) p = Inr reader"
  "decode_utf8_ignore (reader_world reader) bs = bs"
  by (simp_all add: reader_world_def)

lemma book_world_simps [simp]:
  "read_epub (book_world book) p = Inr book"
  "decode_utf8_ignore (book_world book) bs = bs"
  by (simp_all add: book_world_def)

lemma no_isbn_page_examples:
  "no_isbn_page db (Inr None)" "no_isbn_page db (Inr (Some (codes ''Preface'')))"
  by (simp_all add: no_isbn_page_def or_empty_def find_example_none)

text \<open>
  C2. No public operation of a Book raises: \<open>format\<close>, \<open>metadata\<close>, \<open>title\<close>, \<open>author\<close>
  and \<open>isbn\<close> each return a value, whatever the path, the files and the state of the
  instance. Every failure gives the empty mapping, or no ISBN: a container that cannot be
  opened; a PDF whose document information or page tree cannot be read, or where, among
  the first \<open>n\<close> pages and after pages without a match, a page cannot be fetched or its
  text cannot be extracted, whatever the later pages hold; an EPUB whose title or creator
  cannot be read, or where an item cannot be read after items without a match, whatever
  the later items hold. A new Book returns what the extraction method of its format
  returns (for \<open>isbn\<close> with \<open>n = 10\<close>), so each of these failures gives the empty mapping
  as its metadata and no ISBN, and with the empty mapping title and author are absent.
\<close>

theorem no_exception_escapes:
  "(\<exists>v s. format db self = (Inr v, s)) \<and>
   (\<exists>v s. metadata db w self = (Inr v, s)) \<and>
   (\<exists>v s. title db w self = (Inr v, s)) \<and>
   (\<exists>v s. author db w self = (Inr v, s)) \<and>
   (\<exists>v s. isbn db w self = (Inr v, s)) \<and>
   (PdfReader w (path_str fp) = Inl e \<longrightarrow>
      extract_pdf_metadata w fp = Inr Map.empty \<and> extract_isbn_from_pdf db w fp n = Inr None) \<and>
   (read_epub w (path_str fp) = Inl e \<longrightarrow>
      extract_epub_metadata w fp = Inr Map.empty \<and> extract_isbn_from_epub db w fp = Inr None) \<and>
   (str_lower db (path_suffix fp) = codes ''.pdf'' \<and> PdfReader w (path_str fp) = Inl e \<longrightarrow>
      fst (metadata db w (new_Book fp)) = Inr Map.empty \<and>
      fst (title db w (new_Book fp)) = Inr None \<and>
      fst (author db w (new_Book fp)) = Inr None \<and>
      fst (isbn db w (new_Book fp)) = Inr None) \<and>
   (PdfReader w (path_str fp) = Inr reader \<and> reader_metadata reader = Inl e \<longrightarrow>
      extract_pdf_metadata w fp = Inr Map.empty) \<and>
   (PdfReader w (path_str fp) = Inr reader \<and> reader_pages reader = Inl e \<longrightarrow>
      extract_isbn_from_pdf db w fp n = Inr None) \<and>
   (PdfReader w (path_str fp) = Inr reader \<and> reader_pages reader = Inr ps \<and>
    take n ps = map Inr pre @ Inl e # later \<and> list_all (no_isbn_page db) pre \<longrightarrow>
      extract_isbn_from_pdf db w fp n = Inr None) \<and>
   (PdfReader w (path_str fp) = Inr reader \<and> reader_pages reader = Inr ps \<and>
    take n ps = map Inr pre @ Inr (Inl e) # later \<and> list_all (no_isbn_page db) pre \<longrightarrow>
      extract_isbn_from_pdf db w fp n = Inr None) \<and>
   (read_epub w (path_str fp) = Inr book \<and>
    (get_metadata book (codes ''DC'') (codes ''title'') = Inl e \<or>
     get_metadata book (codes ''DC'') (codes ''creator'') = Inl e) \<longrightarrow>
      extract_epub_metadata w fp = Inr Map.empty) \<and>
   (read_epub w (path_str fp) = Inr book \<and> epub_documents book = pre' @ Inl e # post' \<and>
    list_all (no_isbn_item db w) pre' \<longrightarrow>
      extract_isbn_from_epub db w fp = Inr None) \<and>
   fst (metadata db w (new_Book fp)) =
     (if str_lower db (path_suffix fp) = codes ''.pdf'' then extract_pdf_metadata w fp
      else if str_lower db (path_suffix fp) = codes ''.epub'' then extract_epub_metadata w fp
      else Inr Map.empty) \<and>
   fst (isbn db w (new_Book fp)) =
     (if str_lower db (path_suffix fp) = codes ''.pdf'' then extract_isbn_from_pdf db w fp 10
      else if str_lower db (path_suffix fp) = codes ''.epub'' then extract_isbn_from_epub db w fp
      else Inr None) \<and>
   (fst (metadata db w (new_Book fp)) = Inr Map.empty \<longrightarrow>
      fst (title db w (new_Book fp)) = Inr None \<and> fst (author db w (new_Book fp)) = Inr None)"
proof (intro conjI impI)
  show "\<exists>v s. format db self = (Inr v, s)" using format_eq by blast
  show "\<exists>v s. metadata db w self = (Inr v, s)" using metadata_eq [of db w self] by blast
  show "\<exists>v s. title db w self = (Inr v, s)" using title_eq [of db w self] by blast
  show "\<exists>v s. author db w self = (Inr v, s)" using author_eq [of db w self] by blast
  show "\<exists>v s. isbn db w self = (Inr v, s)" using isbn_eq [of db w self] by blast
next
  assume "PdfReader w (path_str fp) = Inl e"
  then show "extract_pdf_metadata w fp = Inr Map.empty" "extract_isbn_from_pdf db w fp n = Inr None"
    by (simp_all add: extract_pdf_metadata_def extract_isbn_from_pdf_def try_except_def)
next
  assume "read_epub w (path_str fp) = Inl e"
  then show "extract_epub_metadata w fp = Inr Map.empty" "extract_isbn_from_epub db w fp = Inr None"
    by (simp_all add: extract_epub_metadata_def extract_isbn_from_epub_def try_except_def)
next
  assume a: "str_lower db (path_suffix fp) = codes ''.pdf'' \<and> PdfReader w (path_str fp) = Inl e"
  then have f: "format_of db (new_Book fp) = codes ''PDF''" by (simp add: format_of_new)
  have m: "fst (metadata db w (new_Book fp)) = Inr Map.empty"
    using a f by (simp add: metadata_new extract_pdf_metadata_def try_except_def)
  show "fst (metadata db w (new_Book fp)) = Inr Map.empty" by (rule m)
  show "fst (title db w (new_Book fp)) = Inr None" by (simp add: title_new m dict_get_def)
  show "fst (author db w (new_Book fp)) = Inr None" by (simp add: author_new m dict_get_def)
  show "fst (isbn db w (new_Book fp)) = Inr None"
    using a f by (simp add: isbn_new extract_isbn_from_pdf_def try_except_def)
next
  assume "PdfReader w (path_str fp) = Inr reader \<and> reader_metadata reader = Inl e"
  then show "extract_pdf_metadata w fp = Inr Map.empty"
    by (simp add: extract_pdf_metadata_def try_except_def)
next
  assume "PdfReader w (path_str fp) = Inr reader \<and> reader_pages reader = Inl e"
  then show "extract_isbn_from_pdf db w fp n = Inr None"
    by (simp add: extract_isbn_from_pdf_def try_except_def)
next
  assume "PdfReader w (path_str fp) = Inr reader \<and> reader_pages reader = Inr ps \<and>
    take n ps = map Inr pre @ Inl e # later \<and> list_all (no_isbn_page db) pre"
  then show "extract_isbn_from_pdf db w fp n = Inr None"
    by (simp add: extract_isbn_from_pdf_def try_except_def slice_to_def fetch_all_fails)
next
  assume a: "PdfReader w (path_str fp) = Inr reader \<and> reader_pages reader = Inr ps \<and>
    take n ps = map Inr pre @ Inr (Inl e) # later \<and> list_all (no_isbn_page db) pre"
  then have "scan_pages db (pre @ Inl e # vs) = Inl e" for vs by (simp add: scan_pages_raises)
  with a show "extract_isbn_from_pdf db w fp n = Inr None"
    by (simp add: extract_isbn_from_pdf_def try_except_def slice_to_def fetch_all_reaches
          split: sum.splits)
next
  assume "read_epub w (path_str fp) = Inr book \<and>
    (get_metadata book (codes ''DC'') (codes ''title'') = Inl e \<or>
     get_metadata book (codes ''DC'') (codes ''creator'') = Inl e)"
  then show "extract_epub_metadata w fp = Inr Map.empty"
    by (auto simp: extract_epub_metadata_def try_except_def meta_def split: sum.splits list.splits)
next
  assume "read_epub w (path_str fp) = Inr book \<and> epub_documents book = pre' @ Inl e # post' \<and>
    list_all (no_isbn_item db w) pre'"
  then show "extract_isbn_from_epub db w fp = Inr None"
    by (simp add: extract_isbn_from_epub_def try_except_def scan_items_raises)
next
  show "fst (metadata db w (new_Book fp)) =
     (if str_lower db (path_suffix fp) = codes ''.pdf'' then extract_pdf_metadata w fp
      else if str_lower db (path_suffix fp) = codes ''.epub'' then extract_epub_metadata w fp
      else Inr Map.empty)"
    by (simp add: metadata_new format_of_new)
  show "fst (isbn db w (new_Book fp)) =
     (if str_lower db (path_suffix fp) = codes ''.pdf'' then extract_isbn_from_pdf db w fp 10
      else if str_lower db (path_suffix fp) = codes ''.epub'' then extract_isbn_from_epub db w fp
      else Inr None)"
    by (simp add: isbn_new format_of_new)
next
  assume m: "fst (metadata db w (new_Book fp)) = Inr Map.empty"
  show "fst (title db w (new_Book fp)) = Inr None" by (simp add: title_new m dict_get_def)
  show "fst (author db w (new_Book fp)) = Inr None" by (simp add: author_new m dict_get_def)
qed

theorem no_exception_escapes_witness:
  "\<forall>db.
        PdfReader corrupt_world (path_str pdf_path) = Inl (Failure (codes ''not a PDF'')) \<and>
        str_lower db (path_suffix pdf_path) = codes ''.pdf'' \<and>
        extract_pdf_metadata corrupt_world pdf_path = Inr Map.empty \<and>
        extract_isbn_from_pdf db corrupt_world pdf_path 10 = Inr None \<and>
        read_epub corrupt_world (path_str pdf_path) = Inl (Failure (codes ''not an EPUB'')) \<and>
        extract_epub_metadata corrupt_world pdf_path = Inr Map.empty \<and>
        extract_isbn_from_epub db corrupt_world pdf_path = Inr None \<and>
        fst (metadata db corrupt_world (new_Book pdf_path)) = Inr Map.empty \<and>
        fst (title db corrupt_world (new_Book pdf_path)) = Inr None \<and>
        fst (author db corrupt_world (new_Book pdf_path)) = Inr None \<and>
        fst (isbn db corrupt_world (new_Book pdf_path)) = Inr None \<and>
        extract_pdf_metadata (reader_world reader_bad_info) pdf_path = Inr Map.empty \<and>
        extract_isbn_from_pdf db (reader_world reader_bad_info) pdf_path 10 = Inr None \<and>
        extract_isbn_from_pdf db (reader_world reader_bad_page) pdf_path 10 = Inr None \<and>
        extract_isbn_from_pdf db (reader_world reader_bad_text) pdf_path 10 = Inr None \<and>
        extract_epub_metadata (book_world book_bad_title) epub_path = Inr Map.empty \<and>
        extract_epub_metadata (book_world book_bad_creator) epub_path = Inr Map.empty \<and>
        extract_isbn_from_epub db (book_world book_bad_title) epub_path = Inr None \<and>
        fst (metadata db (reader_world reader_bad_info) (new_Book pdf_path)) = Inr Map.empty \<and>
        fst (title db (reader_world reader_bad_info) (new_Book pdf_path)) = Inr None \<and>
        fst (author db (reader_world reader_bad_info) (new_Book pdf_path)) = Inr None \<and>
        fst (isbn db (reader_world reader_bad_text) (new_Book pdf_path)) = Inr None \<and>
        fst (isbn db (book_world book_bad_title) (new_Book epub_path)) = Inr None"
proof (intro allI)
  fix db :: unicode_db
  have a: "PdfReader corrupt_world (path_str pdf_path) = Inl (Failure (codes ''not a PDF''))"
    by (simp add: corrupt_world_def)
  have b: "read_epub corrupt_world (path_str pdf_path) = Inl (Failure (codes ''not an EPUB''))"
    by (simp add: corrupt_world_def)
  note l = lower_paths(1) [of db]
  have 1: "extract_pdf_metadata corrupt_world pdf_path = Inr Map.empty \<and>
      extract_isbn_from_pdf db corrupt_world pdf_path 10 = Inr None"
    by (rule no_exception_escapes [THEN conjunct2, THEN conjunct2, THEN conjunct2, THEN conjunct2, THEN conjunct2, THEN conjunct1, THEN mp]) (rule a)
  have 2: "extract_epub_metadata corrupt_world pdf_path = Inr Map.empty \<and>
      extract_isbn_from_epub db corrupt_world pdf_path = Inr None"
    by (rule no_exception_escapes [THEN conjunct2, THEN conjunct2, THEN conjunct2, THEN conjunct2, THEN conjunct2, THEN conjunct2, THEN conjunct1, THEN mp]) (rule b)
  have 3: "fst (metadata db corrupt_world (new_Book pdf_path)) = Inr Map.empty \<and>
      fst (title db corrupt_world (new_Book pdf_path)) = Inr None \<and>
      fst (author db corrupt_world (new_Book pdf_path)) = Inr None \<and>
      fst (isbn db corrupt_world (new_Book pdf_path)) = Inr None"
    by (rule no_exception_escapes [THEN conjunct2, THEN conjunct2, THEN conjunct2, THEN conjunct2, THEN conjunct2, THEN conjunct2, THEN conjunct2, THEN conjunct1, THEN mp]) (simp add: a l)
  have 4: "extract_pdf_metadata (reader_world reader_bad_info) pdf_path = Inr Map.empty"
    by (rule no_exception_escapes [where reader = reader_bad_info and e = "Failure (codes ''bad trailer'')", THEN conjunct2, THEN conjunct2, THEN conjunct2, THEN conjunct2, THEN conjunct2, THEN conjunct2, THEN conjunct2, THEN conjunct2, THEN conjunct1, THEN mp])
       (simp add: reader_bad_info_def)
  have 5: "extract_isbn_from_pdf db (reader_world reader_bad_info) pdf_path 10 = Inr None"
    by (rule no_exception_escapes [where reader = reader_bad_info and e = "Failure (codes ''bad page tree'')", THEN conjunct2, THEN conjunct2, THEN conjunct2, THEN conjunct2, THEN conjunct2, THEN conjunct2, THEN conjunct2, THEN conjunct2, THEN conjunct2, THEN conjunct1, THEN mp])
       (simp add: reader_bad_info_def)
  have 6: "extract_isbn_from_pdf db (reader_world reader_bad_page) pdf_path 10 = Inr None"
    by (rule no_exception_escapes [where reader = reader_bad_page and e = "Failure (codes ''bad page object'')"
          and ps = "[Inr (Inr (Some (codes ''Preface''))), Inl (Failure (codes ''bad page object'')),
                     Inr (Inr (Some (codes ''ISBN-13: 978-1-23456-789-7'')))]"
          and pre = "[Inr (Some (codes ''Preface''))]"
          and later = "[Inr (Inr (Some (codes ''ISBN-13: 978-1-23456-789-7'')))]", THEN conjunct2, THEN conjunct2, THEN conjunct2, THEN conjunct2, THEN conjunct2, THEN conjunct2, THEN conjunct2, THEN conjunct2, THEN conjunct2, THEN conjunct2, THEN conjunct1, THEN mp])
       (simp add: reader_bad_page_def no_isbn_page_examples)
  have 7: "extract_isbn_from_pdf db (reader_world reader_bad_text) pdf_path 10 = Inr None"
    by (rule no_exception_escapes [where reader = reader_bad_text and e = "Failure (codes ''bad stream'')"
          and ps = "[Inr (Inr (Some (codes ''Preface''))), Inr (Inl (Failure (codes ''bad stream''))),
                     Inr (Inr (Some (codes ''ISBN-13: 978-1-23456-789-7'')))]"
          and pre = "[Inr (Some (codes ''Preface''))]"
          and later = "[Inr (Inr (Some (codes ''ISBN-13: 978-1-23456-789-7'')))]", THEN conjunct2, THEN conjunct2, THEN conjunct2, THEN conjunct2, THEN conjunct2, THEN conjunct2, THEN conjunct2, THEN conjunct2, THEN conjunct2, THEN conjunct2, THEN conjunct2, THEN conjunct1, THEN mp])
       (simp add: reader_bad_text_def no_isbn_page_examples)
  have 8: "extract_epub_metadata (book_world book_bad_title) epub_path = Inr Map.empty"
    by (rule no_exception_escapes [where book = book_bad_title and e = "Failure (codes ''bad OPF'')", THEN conjunct2, THEN conjunct2, THEN conjunct2, THEN conjunct2, THEN conjunct2, THEN conjunct2, THEN conjunct2, THEN conjunct2, THEN conjunct2, THEN conjunct2, THEN conjunct2, THEN conjunct2, THEN conjunct1, THEN mp])
       (simp add: book_bad_title_def)
  have 9: "extract_epub_metadata (book_world book_bad_creator) epub_path = Inr Map.empty"
    by (rule no_exception_escapes [where book = book_bad_creator and e = "Failure (codes ''bad OPF'')", THEN conjunct2, THEN conjunct2, THEN conjunct2, THEN conjunct2, THEN conjunct2, THEN conjunct2, THEN conjunct2, THEN conjunct2, THEN conjunct2, THEN conjunct2, THEN conjunct2, THEN conjunct2, THEN conjunct1, THEN mp])
       (simp add: book_bad_creator_def)
  have 10: "extract_isbn_from_epub db (book_world book_bad_title) epub_path = Inr None"
    by (rule no_exception_escapes [where book = book_bad_title and e = "Failure (codes ''missing item'')"
          and pre' = "[Inr (codes ''Preface'')]"
          and post' = "[Inr (codes ''ISBN-13: 978-1-23456-789-7'')]", THEN conjunct2, THEN conjunct2, THEN conjunct2, THEN conjunct2, THEN conjunct2, THEN conjunct2, THEN conjunct2, THEN conjunct2, THEN conjunct2, THEN conjunct2, THEN conjunct2, THEN conjunct2, THEN conjunct2, THEN conjunct1, THEN mp])
       (simp add: book_bad_title_def no_isbn_item_def find_example_none)
  have 11: "fst (metadata db (reader_world reader_bad_info) (new_Book pdf_path)) = Inr Map.empty"
    using no_exception_escapes [where db = db and w = "reader_world reader_bad_info" and fp = pdf_path, THEN conjunct2, THEN conjunct2, THEN conjunct2, THEN conjunct2, THEN conjunct2, THEN conjunct2, THEN conjunct2, THEN conjunct2, THEN conjunct2, THEN conjunct2, THEN conjunct2, THEN conjunct2, THEN conjunct2, THEN conjunct2, THEN conjunct1] 4
    by (simp add: l)
  have 12: "fst (title db (reader_world reader_bad_info) (new_Book pdf_path)) = Inr None \<and>
      fst (author db (reader_world reader_bad_info) (new_Book pdf_path)) = Inr None"
    by (rule no_exception_escapes [THEN conjunct2, THEN conjunct2, THEN conjunct2, THEN conjunct2, THEN conjunct2, THEN conjunct2, THEN conjunct2, THEN conjunct2, THEN conjunct2, THEN conjunct2, THEN conjunct2, THEN conjunct2, THEN conjunct2, THEN conjunct2, THEN conjunct2, THEN conjunct2, THEN mp]) (rule 11)
  have 13: "fst (isbn db (reader_world reader_bad_text) (new_Book pdf_path)) = Inr None"
    using no_exception_escapes [where db = db and w = "reader_world reader_bad_text" and fp = pdf_path, THEN conjunct2, THEN conjunct2, THEN conjunct2, THEN conjunct2, THEN conjunct2, THEN conjunct2, THEN conjunct2, THEN conjunct2, THEN conjunct2, THEN conjunct2, THEN conjunct2, THEN conjunct2, THEN conjunct2, THEN conjunct2, THEN conjunct2, THEN conjunct1] 7
    by (simp add: l)
  have 14: "fst (isbn db (book_world book_bad_title) (new_Book epub_path)) = Inr None"
    using no_exception_escapes [where db = db and w = "book_world book_bad_title" and fp = epub_path, THEN conjunct2, THEN conjunct2, THEN conjunct2, THEN conjunct2, THEN conjunct2, THEN conjunct2, THEN conjunct2, THEN conjunct2, THEN conjunct2, THEN conjunct2, THEN conjunct2, THEN conjunct2, THEN conjunct2, THEN conjunct2, THEN conjunct2, THEN conjunct1] 10
    by (simp add: lower_paths codes_def)
  from a b l 1 2 3 4 5 6 7 8 9 10 11 12 13 14
  show "
        PdfReader corrupt_world (path_str pdf_path) = Inl (Failure (codes ''not a PDF'')) \<and>
        str_lower db (path_suffix pdf_path) = codes ''.pdf'' \<and>
        extract_pdf_metadata corrupt_world pdf_path = Inr Map.empty \<and>
        extract_isbn_from_pdf db corrupt_world pdf_path 10 = Inr None \<and>
        read_epub corrupt_world (path_str pdf_path) = Inl (Failure (codes ''not an EPUB'')) \<and>
        extract_epub_metadata corrupt_world pdf_path = Inr Map.empty \<and>
        extract_isbn_from_epub db corrupt_world pdf_path = Inr None \<and>
        fst (metadata db corrupt_world (new_Book pdf_path)) = Inr Map.empty \<and>
        fst (title db corrupt_world (new_Book pdf_path)) = Inr None \<and>
        fst (author db corrupt_world (new_Book pdf_path)) = Inr None \<and>
        fst (isbn db corrupt_world (new_Book pdf_path)) = Inr None \<and>
        extract_pdf_metadata (reader_world reader_bad_info) pdf_path = Inr Map.empty \<and>
        extract_isbn_from_pdf db (reader_world reader_bad_info) pdf_path 10 = Inr None \<and>
        extract_isbn_from_pdf db (reader_world reader_bad_page) pdf_path 10 = Inr None \<and>
        extract_isbn_from_pdf db (reader_world reader_bad_text) pdf_path 10 = Inr None \<and>
        extract_epub_metadata (book_world book_bad_title) epub_path = Inr Map.empty \<and>
        extract_epub_metadata (book_world book_bad_creator) epub_path = Inr Map.empty \<and>
        extract_isbn_from_epub db (book_world book_bad_title) epub_path = Inr None \<and>
        fst (metadata db (reader_world reader_bad_info) (new_Book pdf_path)) = Inr Map.empty \<and>
        fst (title db (reader_world reader_bad_info) (new_Book pdf_path)) = Inr None \<and>
        fst (author db (reader_world reader_bad_info) (new_Book pdf_path)) = Inr None \<and>
        fst (isbn db (reader_world reader_bad_text) (new_Book pdf_path)) = Inr None \<and>
        fst (isbn db (book_world book_bad_title) (new_Book epub_path)) = Inr None"
    by simp
qed

text \<open>
  C6. The format of a new Book is decided by the lower-cased suffix of its path: \<open>.pdf\<close>
  gives PDF, \<open>.epub\<close> gives EPUB, anything else Unknown. For a Book of Unknown format the
  metadata is the empty mapping, title, author and ISBN are absent, and no sequence of
  reads ever calls an extraction method.
\<close>

theorem format_dispatch:
  "fst (format db (new_Book fp)) =
     Inr (if str_lower db (path_suffix fp) = codes ''.pdf'' then codes ''PDF''
          else if str_lower db (path_suffix fp) = codes ''.epub'' then codes ''EPUB''
          else codes ''Unknown'') \<and>
   (fst (format db (new_Book fp)) = Inr (codes ''Unknown'') \<longrightarrow>
      fst (metadata db w (new_Book fp)) = Inr Map.empty \<and>
      fst (title db w (new_Book fp)) = Inr None \<and>
      fst (author db w (new_Book fp)) = Inr None \<and>
      fst (isbn db w (new_Book fp)) = Inr None \<and>
      calls (reads db rs (new_Book fp)) = [])"
proof (intro conjI impI)
  show "fst (format db (new_Book fp)) =
     Inr (if str_lower db (path_suffix fp) = codes ''.pdf'' then codes ''PDF''
          else if str_lower db (path_suffix fp) = codes ''.epub'' then codes ''EPUB''
          else codes ''Unknown'')"
    by (simp add: format_eq format_of_new)
next
  assume "fst (format db (new_Book fp)) = Inr (codes ''Unknown'')"
  then have u: "format_of db (new_Book fp) = codes ''Unknown''" by (simp add: format_eq)
  show m: "fst (metadata db w (new_Book fp)) = Inr Map.empty" by (simp add: metadata_new u)
  show "fst (title db w (new_Book fp)) = Inr None" by (simp add: title_new m dict_get_def)
  show "fst (author db w (new_Book fp)) = Inr None" by (simp add: author_new m dict_get_def)
  show "fst (isbn db w (new_Book fp)) = Inr None" by (simp add: isbn_new u)
  have "unknown_inv db (new_Book fp)" using u by (simp add: unknown_inv_def new_Book_def)
  from unknown_inv_reads [OF this] show "calls (reads db rs (new_Book fp)) = []"
    by (simp add: unknown_inv_def)
qed

theorem format_dispatch_witness:
  "\<forall>db w. fst (format db (new_Book pdf_path)) = Inr (codes ''PDF'') \<and>
          fst (format db (new_Book epub_path)) = Inr (codes ''EPUB'') \<and>
          fst (format db (new_Book txt_path)) = Inr (codes ''Unknown'') \<and>
          fst (metadata db w (new_Book txt_path)) = Inr Map.empty \<and>
          fst (title db w (new_Book txt_path)) = Inr None \<and>
          fst (author db w (new_Book txt_path)) = Inr None \<and>
          fst (isbn db w (new_Book txt_path)) = Inr None \<and>
          calls (reads db [(Title, w), (Isbn, w), (Metadata, w), (Author, w), (Format, w)]
                   (new_Book txt_path)) = []"
proof (intro allI)
  fix db :: unicode_db and w :: world
  let ?rs = "[(Title, w), (Isbn, w), (Metadata, w), (Author, w), (Format, w)]"
  have p: "fst (format db (new_Book pdf_path)) = Inr (codes ''PDF'')"
    using format_dispatch [of db pdf_path w ?rs] by (simp add: lower_paths)
  have e: "fst (format db (new_Book epub_path)) = Inr (codes ''EPUB'')"
    using format_dispatch [of db epub_path w ?rs] by (simp add: lower_paths codes_def)
  have t: "fst (format db (new_Book txt_path)) = Inr (codes ''Unknown'')"
    using format_dispatch [of db txt_path w ?rs] by (simp add: lower_paths codes_def)
  from format_dispatch [of db txt_path w ?rs] t
  have r: "fst (metadata db w (new_Book txt_path)) = Inr Map.empty"
    "fst (title db w (new_Book txt_path)) = Inr None"
    "fst (author db w (new_Book txt_path)) = Inr None"
    "fst (isbn db w (new_Book txt_path)) = Inr None"
    "calls (reads db ?rs (new_Book txt_path)) = []"
    by blast+
  from p e t r
  show "fst (format db (new_Book pdf_path)) = Inr (codes ''PDF'') \<and>
          fst (format db (new_Book epub_path)) = Inr (codes ''EPUB'') \<and>
          fst (format db (new_Book txt_path)) = Inr (codes ''Unknown'') \<and>
          fst (metadata db w (new_Book txt_path)) = Inr Map.empty \<and>
          fst (title db w (new_Book txt_path)) = Inr None \<and>
          fst (author db w (new_Book txt_path)) = Inr None \<and>
          fst (isbn db w (new_Book txt_path)) = Inr None \<and>
          calls (reads db ?rs (new_Book txt_path)) = []"
    by (intro conjI)
qed

lemma cached_property_stores:
  assumes "cached_property lookup store func self = (Inr v, s)"
    and "\<And>x s'. lookup (store x s') = Some x"
  shows "lookup s = Some v"
proof (cases "lookup self")
  case (Some x)
  with assms(1) show ?thesis by (auto simp: cached_property_def)
next
  case None
  with assms(1) obtain s' where "func self = (Inr v, s')" "s = store v s'"
    by (auto simp: cached_property_def split: prod.splits sum.splits)
  with assms(2) show ?thesis by simp
qed

lemma cached_property_hit:
  "lookup self = Some v \<Longrightarrow> cached_property lookup store func self = (Inr v, self)"
  by (simp add: cached_property_def)

text \<open>
  C8. Each derived attribute is computed at most once per instance. A read that returns a
  value leaves that value in the cache slot of the attribute, and a read of an attribute
  whose slot is filled returns the stored value and leaves the instance as it is, without
  running the body of the property. So a second read of an attribute, even after the
  files have changed, returns the value of the first read and leaves the instance, with
  its record of extraction calls, as it is; and over any sequence of reads of a new Book
  the metadata extraction is called at most once and the ISBN extraction at most once.
\<close>

theorem cached_attributes_computed_once:
  "(format db self = (v1, s1) \<longrightarrow> format db s1 = (v1, s1)) \<and>
   (metadata db w self = (v2, s2) \<longrightarrow> metadata db w' s2 = (v2, s2)) \<and>
   (title db w self = (v3, s3) \<longrightarrow> title db w' s3 = (v3, s3)) \<and>
   (author db w self = (v4, s4) \<longrightarrow> author db w' s4 = (v4, s4)) \<and>
   (isbn db w self = (v5, s5) \<longrightarrow> isbn db w' s5 = (v5, s5)) \<and>
   length (filter (\<lambda>k. k = PdfMetadata \<or> k = EpubMetadata) (calls (reads db rs (new_Book fp)))) \<le> 1 \<and>
   length (filter (\<lambda>k. k = PdfIsbn \<or> k = EpubIsbn) (calls (reads db rs (new_Book fp)))) \<le> 1 \<and>
   (format db self = (Inr a1, t1) \<longrightarrow> format_cache t1 = Some a1) \<and>
   (metadata db w self = (Inr a2, t2) \<longrightarrow> metadata_cache t2 = Some a2) \<and>
   (title db w self = (Inr a3, t3) \<longrightarrow> title_cache t3 = Some a3) \<and>
   (author db w self = (Inr a4, t4) \<longrightarrow> author_cache t4 = Some a4) \<and>
   (isbn db w self = (Inr a5, t5) \<longrightarrow> isbn_cache t5 = Some a5) \<and>
   (format_cache self = Some c1 \<longrightarrow> format db self = (Inr c1, self)) \<and>
   (metadata_cache self = Some c2 \<longrightarrow> metadata db w self = (Inr c2, self)) \<and>
   (title_cache self = Some c3 \<longrightarrow> title db w self = (Inr c3, self)) \<and>
   (author_cache self = Some c4 \<longrightarrow> author db w self = (Inr c4, self)) \<and>
   (isbn_cache self = Some c5 \<longrightarrow> isbn db w self = (Inr c5, self))"
proof (intro conjI impI)
  show "format db self = (v1, s1) \<Longrightarrow> format db s1 = (v1, s1)" by (rule format_again)
  show "metadata db w self = (v2, s2) \<Longrightarrow> metadata db w' s2 = (v2, s2)" by (rule metadata_again)
  show "title db w self = (v3, s3) \<Longrightarrow> title db w' s3 = (v3, s3)" by (rule title_again)
  show "author db w self = (v4, s4) \<Longrightarrow> author db w' s4 = (v4, s4)" by (rule author_again)
  show "isbn db w self = (v5, s5) \<Longrightarrow> isbn db w' s5 = (v5, s5)" by (rule isbn_again)
next
  have i: "once_inv (reads db rs (new_Book fp))" by (rule once_inv_reads [OF once_inv_new])
  have m: "is_md = (\<lambda>k. k = PdfMetadata \<or> k = EpubMetadata)" by (rule ext) (simp add: is_md_def)
  have n: "is_isbn = (\<lambda>k. k = PdfIsbn \<or> k = EpubIsbn)" by (rule ext) (simp add: is_isbn_def)
  from i show "length (filter (\<lambda>k. k = PdfMetadata \<or> k = EpubMetadata) (calls (reads db rs (new_Book fp)))) \<le> 1"
    unfolding once_inv_def m by (simp split: if_splits)
  from i show "length (filter (\<lambda>k. k = PdfIsbn \<or> k = EpubIsbn) (calls (reads db rs (new_Book fp)))) \<le> 1"
    unfolding once_inv_def n by (simp split: if_splits)
next
  show "format db self = (Inr a1, t1) \<Longrightarrow> format_cache t1 = Some a1"
    unfolding format_def by (erule cached_property_stores) simp
  show "metadata db w self = (Inr a2, t2) \<Longrightarrow> metadata_cache t2 = Some a2"
    unfolding metadata_def by (erule cached_property_stores) simp
  show "title db w self = (Inr a3, t3) \<Longrightarrow> title_cache t3 = Some a3"
    unfolding title_def by (erule cached_property_stores) simp
  show "author db w self = (Inr a4, t4) \<Longrightarrow> author_cache t4 = Some a4"
    unfolding author_def by (erule cached_property_stores) simp
  show "isbn db w self = (Inr a5, t5) \<Longrightarrow> isbn_cache t5 = Some a5"
    unfolding isbn_def by (erule cached_property_stores) simp
next
  show "format_cache self = Some c1 \<Longrightarrow> format db self = (Inr c1, self)"
    unfolding format_def by (rule cached_property_hit)
  show "metadata_cache self = Some c2 \<Longrightarrow> metadata db w self = (Inr c2, self)"
    unfolding metadata_def by (rule cached_property_hit)
  show "title_cache self = Some c3 \<Longrightarrow> title db w self = (Inr c3, self)"
    unfolding title_def by (rule cached_property_hit)
  show "author_cache self = Some c4 \<Longrightarrow> author db w self = (Inr c4, self)"
    unfolding author_def by (rule cached_property_hit)
  show "isbn_cache self = Some c5 \<Longrightarrow> isbn db w self = (Inr c5, self)"
    unfolding isbn_def by (rule cached_property_hit)
qed

lemma isbn_pdf_scan:
  assumes "str_lower db (path_suffix fp) = codes ''.pdf''"
    and "PdfReader w (path_str fp) = Inr reader"
    and "reader_pages reader = Inr ps"
    and "take 10 ps = map Inr first"
  shows "fst (isbn db w (new_Book fp)) = try_except (scan_pages db first) (\<lambda>exc. Inr None)"
proof -
  have "format_of db (new_Book fp) = codes ''PDF''" using assms(1) by (simp add: format_of_new)
  moreover have "slice_to 10 ps = Inr first"
    using assms(4) by (simp add: slice_to_def fetch_all_map_Inr)
  ultimately show ?thesis
    using assms(2,3) by (simp add: isbn_new extract_isbn_from_pdf_def)
qed

lemma isbn_epub_scan:
  assumes "str_lower db (path_suffix fp) = codes ''.epub''"
    and "read_epub w (path_str fp) = Inr book"
  shows "fst (isbn db w (new_Book fp)) =
         try_except (scan_items db w (epub_documents book)) (\<lambda>exc. Inr None)"
proof -
  have "format_of db (new_Book fp) = codes ''EPUB''" using assms(1) by (simp add: format_of_new)
  then show ?thesis using assms(2) by (simp add: isbn_new extract_isbn_from_epub_def)
qed

text \<open>
  C5. The PDF scan reads the first 10 pages only. For a PDF whose first 10 pages can be
  fetched: when page 3 holds the text \<open>ISBN-13: 978-1-23456-789-7\<close> and pages 1 and 2 hold
  no match, \<open>isbn\<close> is \<open>9781234567897\<close>; when none of the first 10 pages holds a match,
  \<open>isbn\<close> is absent, whatever the later pages (a page 12, say) hold.
\<close>

theorem pdf_isbn_scan_first_ten_pages:
  assumes "str_lower db (path_suffix fp) = codes ''.pdf''"
    and "PdfReader w (path_str fp) = Inr reader"
    and "reader_pages reader = Inr ps"
    and "take 10 ps = map Inr first"
  shows "(first = p1 # p2 # Inr (Some (codes ''ISBN-13: 978-1-23456-789-7'')) # others \<and>
            no_isbn_page db p1 \<and> no_isbn_page db p2 \<longrightarrow>
          fst (isbn db w (new_Book fp)) = Inr (Some (codes ''9781234567897''))) \<and>
         (list_all (no_isbn_page db) first \<longrightarrow> fst (isbn db w (new_Book fp)) = Inr None)"
proof (intro conjI impI)
  assume a: "first = p1 # p2 # Inr (Some (codes ''ISBN-13: 978-1-23456-789-7'')) # others \<and>
            no_isbn_page db p1 \<and> no_isbn_page db p2"
  let ?t = "Some (codes ''ISBN-13: 978-1-23456-789-7'')"
  have f: "find_isbn_in_text db (or_empty ?t) = Inr (Some (codes ''9781234567897''))"
    by (simp add: or_empty_def find_example_13)
  have "list_all (no_isbn_page db) [p1, p2]" using a by simp
  from scan_pages_first [OF this f, of others] a
  have "scan_pages db first = Inr (Some (codes ''9781234567897''))" by simp
  then show "fst (isbn db w (new_Book fp)) = Inr (Some (codes ''9781234567897''))"
    by (simp add: isbn_pdf_scan [OF assms] try_except_def)
next
  assume "list_all (no_isbn_page db) first"
  from scan_pages_none [OF this] show "fst (isbn db w (new_Book fp)) = Inr None"
    by (simp add: isbn_pdf_scan [OF assms] try_except_def)
qed

text \<open>
  C9. \<open>isbn\<close> scans the text blocks in order and returns the candidate of the first block
  in which the matcher finds one, whatever the later blocks hold (another candidate, or a
  failure); when no block holds a match, \<open>isbn\<close> is absent. The blocks of a PDF are its
  first 10 pages, those of an EPUB its document items; the blocks before the match are
  read without failure.
\<close>

theorem isbn_first_matching_block:
  "(str_lower db (path_suffix fp) = codes ''.pdf'' \<and> PdfReader w (path_str fp) = Inr reader \<and>
    reader_pages reader = Inr ps \<and> take 10 ps = map Inr first \<longrightarrow>
      (first = pre @ Inr t # post \<and> list_all (no_isbn_page db) pre \<and>
       find_isbn_in_text db (or_empty t) = Inr (Some r) \<longrightarrow>
         fst (isbn db w (new_Book fp)) = Inr (Some r)) \<and>
      (list_all (no_isbn_page db) first \<longrightarrow> fst (isbn db w (new_Book fp)) = Inr None)) \<and>
   (str_lower db (path_suffix fp') = codes ''.epub'' \<and> read_epub w (path_str fp') = Inr book \<longrightarrow>
      (epub_documents book = pre' @ Inr c # post' \<and> list_all (no_isbn_item db w) pre' \<and>
       find_isbn_in_text db (decode_utf8_ignore w c) = Inr (Some r') \<longrightarrow>
         fst (isbn db w (new_Book fp')) = Inr (Some r')) \<and>
      (list_all (no_isbn_item db w) (epub_documents book) \<longrightarrow>
         fst (isbn db w (new_Book fp')) = Inr None))"
proof (intro conjI impI)
  assume a: "str_lower db (path_suffix fp) = codes ''.pdf'' \<and> PdfReader w (path_str fp) = Inr reader \<and>
    reader_pages reader = Inr ps \<and> take 10 ps = map Inr first"
  then have a1: "str_lower db (path_suffix fp) = codes ''.pdf''"
    and a2: "PdfReader w (path_str fp) = Inr reader"
    and a3: "reader_pages reader = Inr ps" and a4: "take 10 ps = map Inr first" by simp_all
  have s: "fst (isbn db w (new_Book fp)) = try_except (scan_pages db first) (\<lambda>exc. Inr None)"
    by (rule isbn_pdf_scan [OF a1 a2 a3 a4])
  {
    assume b: "first = pre @ Inr t # post \<and> list_all (no_isbn_page db) pre \<and>
       find_isbn_in_text db (or_empty t) = Inr (Some r)"
    then have "scan_pages db first = Inr (Some r)" by (simp add: scan_pages_first)
    then show "fst (isbn db w (new_Book fp)) = Inr (Some r)" by (simp add: s try_except_def)
  }
  {
    assume "list_all (no_isbn_page db) first"
    from scan_pages_none [OF this] show "fst (isbn db w (new_Book fp)) = Inr None"
      by (simp add: s try_except_def)
  }
next
  assume a: "str_lower db (path_suffix fp') = codes ''.epub'' \<and> read_epub w (path_str fp') = Inr book"
  then have a1: "str_lower db (path_suffix fp') = codes ''.epub''"
    and a2: "read_epub w (path_str fp') = Inr book" by simp_all
  have s: "fst (isbn db w (new_Book fp')) =
      try_except (scan_items db w (epub_documents book)) (\<lambda>exc. Inr None)"
    by (rule isbn_epub_scan [OF a1 a2])
  {
    assume b: "epub_documents book = pre' @ Inr c # post' \<and> list_all (no_isbn_item db w) pre' \<and>
       find_isbn_in_text db (decode_utf8_ignore w c) = Inr (Some r')"
    then have "scan_items db w (epub_documents book) = Inr (Some r')"
      by (simp add: scan_items_first)
    then show "fst (isbn db w (new_Book fp')) = Inr (Some r')" by (simp add: s try_except_def)
  }
  {
    assume "list_all (no_isbn_item db w) (epub_documents book)"
    from scan_items_none [OF this] show "fst (isbn db w (new_Book fp')) = Inr None"
      by (simp add: s try_except_def)
  }
qed

lemma pdf_world_reader:
  "PdfReader (pdf_world pages) (path_str pdf_path) =
     Inr \<lparr>reader_metadata = Inr (Some (InfoDict [codes ''/Title'' \<mapsto> Some (codes ''Sample Book'')])),
          reader_pages = Inr (map Inr pages)\<rparr>"
  by (simp add: pdf_world_def)

theorem pdf_isbn_scan_first_ten_pages_witness:
  "\<forall>db. fst (isbn db (pdf_world pages_isbn_on_3) (new_Book pdf_path)) =
           Inr (Some (codes ''9781234567897'')) \<and>
        length pages_isbn_on_12 = 12 \<and>
        pages_isbn_on_12 ! 11 = Inr (Some (codes ''ISBN-13: 978-1-23456-789-7'')) \<and>
        fst (isbn db (pdf_world pages_isbn_on_12) (new_Book pdf_path)) = Inr None"
proof (intro allI)
  fix db :: unicode_db
  have t3: "take 10 (map Inr pages_isbn_on_3) = map Inr pages_isbn_on_3"
    by (simp add: pages_isbn_on_3_def)
  have t12: "take 10 (map Inr pages_isbn_on_12) =
      map Inr (replicate 10 (Inr (Some (codes ''Preface''))))"
    by (simp add: pages_isbn_on_12_def)
  have n: "list_all (no_isbn_page db) (replicate 10 (Inr (Some (codes ''Preface''))))"
    by (simp add: list_all_iff no_isbn_page_examples)
  have 1: "fst (isbn db (pdf_world pages_isbn_on_3) (new_Book pdf_path)) =
           Inr (Some (codes ''9781234567897''))"
    using pdf_isbn_scan_first_ten_pages
      [where db = db and ?p1.0 = "Inr (Some (codes ''Preface''))" and ?p2.0 = "Inr None"
         and others = "[]", OF lower_paths(1) pdf_world_reader _ t3]
    by (simp add: pages_isbn_on_3_def no_isbn_page_examples)
  have 2: "fst (isbn db (pdf_world pages_isbn_on_12) (new_Book pdf_path)) = Inr None"
    using pdf_isbn_scan_first_ten_pages
      [where db = db, OF lower_paths(1) pdf_world_reader _ t12] n
    by simp
  have 3: "length pages_isbn_on_12 = 12"
    "pages_isbn_on_12 ! 11 = Inr (Some (codes ''ISBN-13: 978-1-23456-789-7''))"
    by (simp_all add: pages_isbn_on_12_def nth_append)
  from 1 2 3
  show "fst (isbn db (pdf_world pages_isbn_on_3) (new_Book pdf_path)) =
           Inr (Some (codes ''9781234567897'')) \<and>
        length pages_isbn_on_12 = 12 \<and>
        pages_isbn_on_12 ! 11 = Inr (Some (codes ''ISBN-13: 978-1-23456-789-7'')) \<and>
        fst (isbn db (pdf_world pages_isbn_on_12) (new_Book pdf_path)) = Inr None"
    by (intro conjI)
qed

lemma epub_world_book:
  "read_epub (epub_world docs) (path_str epub_path) =
     Inr \<lparr>get_metadata = (\<lambda>ns name. Inr []), epub_documents = docs\<rparr>"
  by (simp add: epub_world_def)

lemma epub_world_decode [simp]: "decode_utf8_ignore (epub_world docs) bs = bs"
  by (simp add: epub_world_def)

lemma no_isbn_item_example: "no_isbn_item db (epub_world docs) (Inr (codes ''Preface''))"
  by (simp add: no_isbn_item_def epub_world_def find_example_none)

theorem isbn_first_matching_block_witness:
  "\<forall>db. fst (isbn db (pdf_world pages_two_candidates) (new_Book pdf_path)) =
           Inr (Some (codes ''030640615X'')) \<and>
        fst (isbn db (pdf_world [Inr None, Inr (Some (codes ''Preface''))]) (new_Book pdf_path)) =
           Inr None \<and>
        fst (isbn db (epub_world docs_two_candidates) (new_Book epub_path)) =
           Inr (Some (codes ''9781234567897'')) \<and>
        fst (isbn db (epub_world [Inr (codes ''Preface'')]) (new_Book epub_path)) = Inr None"
proof (intro allI)
  fix db :: unicode_db
  let ?w1 = "pdf_world pages_two_candidates"
  let ?w2 = "pdf_world [Inr None, Inr (Some (codes ''Preface''))]"
  let ?w3 = "epub_world docs_two_candidates"
  let ?w4 = "epub_world [Inr (codes ''Preface'')]"
  have t1: "take 10 (map Inr pages_two_candidates) = map Inr pages_two_candidates"
    by (simp add: pages_two_candidates_def)
  have s1: "pages_two_candidates =
      [Inr (Some (codes ''Preface''))] @ Inr (Some (codes ''ISBN 0-306-40615-x'')) #
      [Inl (Failure (codes ''no text layer'')), Inr (Some (codes ''ISBN-13: 978-1-23456-789-7''))]"
    by (simp add: pages_two_candidates_def)
  have f1: "find_isbn_in_text db (or_empty (Some (codes ''ISBN 0-306-40615-x''))) =
      Inr (Some (codes ''030640615X''))"
    by (simp add: or_empty_def find_example_x)
  have 1: "fst (isbn db ?w1 (new_Book pdf_path)) = Inr (Some (codes ''030640615X''))"
    by (rule isbn_first_matching_block
      [where ps = "map Inr pages_two_candidates"
         and reader = "\<lparr>reader_metadata = Inr (Some (InfoDict [codes ''/Title'' \<mapsto> Some (codes ''Sample Book'')])),
                         reader_pages = Inr (map Inr pages_two_candidates)\<rparr>"
         and first = pages_two_candidates and pre = "[Inr (Some (codes ''Preface''))]"
         and t = "Some (codes ''ISBN 0-306-40615-x'')"
         and post = "[Inl (Failure (codes ''no text layer'')), Inr (Some (codes ''ISBN-13: 978-1-23456-789-7''))]",
       THEN conjunct1, THEN mp, THEN conjunct1, THEN mp])
       (simp_all add: lower_paths pdf_world_reader t1 f1 no_isbn_page_examples pages_two_candidates_def)
  have t2: "take 10 (map Inr [Inr None, Inr (Some (codes ''Preface''))]) =
      map Inr [Inr None, Inr (Some (codes ''Preface''))]" by simp
  have 2: "fst (isbn db ?w2 (new_Book pdf_path)) = Inr None"
    by (rule isbn_first_matching_block
      [where ps = "map Inr [Inr None, Inr (Some (codes ''Preface''))]"
         and reader = "\<lparr>reader_metadata = Inr (Some (InfoDict [codes ''/Title'' \<mapsto> Some (codes ''Sample Book'')])),
                         reader_pages = Inr (map Inr [Inr None, Inr (Some (codes ''Preface''))])\<rparr>"
         and first = "[Inr None, Inr (Some (codes ''Preface''))]",
       THEN conjunct1, THEN mp, THEN conjunct2, THEN mp])
       (simp_all add: lower_paths pdf_world_reader no_isbn_page_examples)
  have s3: "docs_two_candidates =
      [Inr (codes ''Preface'')] @ Inr (codes ''ISBN-13: 978-1-23456-789-7'') #
      [Inl (Failure (codes ''missing item'')), Inr (codes ''ISBN 0-306-40615-x'')]"
    by (simp add: docs_two_candidates_def)
  have f3: "find_isbn_in_text db (decode_utf8_ignore ?w3 (codes ''ISBN-13: 978-1-23456-789-7'')) =
      Inr (Some (codes ''9781234567897''))"
    by (simp add: epub_world_def find_example_13)
  have 3: "fst (isbn db ?w3 (new_Book epub_path)) = Inr (Some (codes ''9781234567897''))"
    by (rule isbn_first_matching_block
      [where book = "\<lparr>get_metadata = (\<lambda>ns name. Inr []), epub_documents = docs_two_candidates\<rparr>"
         and pre' = "[Inr (codes ''Preface'')]"
         and c = "codes ''ISBN-13: 978-1-23456-789-7''"
         and post' = "[Inl (Failure (codes ''missing item'')), Inr (codes ''ISBN 0-306-40615-x'')]",
       THEN conjunct2, THEN mp, THEN conjunct1, THEN mp])
       (simp_all add: lower_paths epub_world_book find_example_13 no_isbn_item_example docs_two_candidates_def)
  have 4: "fst (isbn db ?w4 (new_Book epub_path)) = Inr None"
    by (rule isbn_first_matching_block
      [where book = "\<lparr>get_metadata = (\<lambda>ns name. Inr []), epub_documents = [Inr (codes ''Preface'')]\<rparr>",
       THEN conjunct2, THEN mp, THEN conjunct2, THEN mp])
       (simp_all add: lower_paths epub_world_book no_isbn_item_example)
  from 1 2 3 4
  show "fst (isbn db ?w1 (new_Book pdf_path)) = Inr (Some (codes ''030640615X'')) \<and>
        fst (isbn db ?w2 (new_Book pdf_path)) = Inr None \<and>
        fst (isbn db ?w3 (new_Book epub_path)) = Inr (Some (codes ''9781234567897'')) \<and>
        fst (isbn db ?w4 (new_Book epub_path)) = Inr None"
    by (intro conjI)
qed

lemma title_sample:
  "fst (title db (pdf_world pages) (new_Book pdf_path)) = Inr (Some (codes ''Sample Book''))"
  by (simp add: title_new metadata_new format_of_new lower_paths extract_pdf_metadata_def
        pdf_world_def info_or_empty_def py_or_def truthy_def dict_get_def try_except_def
        codes_def)

lemma metadata_sample:
  "fst (metadata db (pdf_world pages) (new_Book pdf_path)) =
     Inr [codes ''title'' \<mapsto> Some (codes ''Sample Book''), codes ''author'' \<mapsto> None]"
  by (simp add: metadata_new format_of_new lower_paths extract_pdf_metadata_def
        pdf_world_def info_or_empty_def py_or_def truthy_def dict_get_def try_except_def
        codes_def)

lemma author_sample:
  "fst (author db (pdf_world pages) (new_Book pdf_path)) = Inr None"
  by (simp add: author_new metadata_new format_of_new lower_paths extract_pdf_metadata_def
        pdf_world_def info_or_empty_def py_or_def truthy_def dict_get_def try_except_def
        codes_def)

lemma format_sample: "fst (format db (new_Book pdf_path)) = Inr (codes ''PDF'')"
  by (simp add: format_eq format_of_new lower_paths)

lemma isbn_sample:
  "fst (isbn db (pdf_world pages_isbn_on_3) (new_Book pdf_path)) = Inr (Some (codes ''9781234567897''))"
proof -
  have t3: "take 10 (map Inr pages_isbn_on_3) = map Inr pages_isbn_on_3"
    by (simp add: pages_isbn_on_3_def)
  have s: "scan_pages db pages_isbn_on_3 = Inr (Some (codes ''9781234567897''))"
    using scan_pages_first [of db "[Inr (Some (codes ''Preface'')), Inr None]"
        "Some (codes ''ISBN-13: 978-1-23456-789-7'')" "codes ''9781234567897''" "[]"]
    by (simp add: pages_isbn_on_3_def no_isbn_page_examples or_empty_def find_example_13)
  show ?thesis
    by (simp add: isbn_pdf_scan [OF lower_paths(1) pdf_world_reader _ t3] s try_except_def)
qed

theorem cached_attributes_computed_once_witness:
  "\<forall>db. fst (title db (pdf_world pages_isbn_on_3) (new_Book pdf_path)) =
           Inr (Some (codes ''Sample Book'')) \<and>
        format db (snd (format db (new_Book pdf_path))) = format db (new_Book pdf_path) \<and>
        metadata db corrupt_world (snd (metadata db (pdf_world pages_isbn_on_3) (new_Book pdf_path))) =
           metadata db (pdf_world pages_isbn_on_3) (new_Book pdf_path) \<and>
        title db corrupt_world (snd (title db (pdf_world pages_isbn_on_3) (new_Book pdf_path))) =
           title db (pdf_world pages_isbn_on_3) (new_Book pdf_path) \<and>
        author db corrupt_world (snd (author db (pdf_world pages_isbn_on_3) (new_Book pdf_path))) =
           author db (pdf_world pages_isbn_on_3) (new_Book pdf_path) \<and>
        isbn db corrupt_world (snd (isbn db (pdf_world pages_isbn_on_3) (new_Book pdf_path))) =
           isbn db (pdf_world pages_isbn_on_3) (new_Book pdf_path) \<and>
        length (filter (\<lambda>k. k = PdfMetadata \<or> k = EpubMetadata)
          (calls (reads db [(Title, pdf_world pages_isbn_on_3), (Author, corrupt_world),
                            (Metadata, pdf_world pages_isbn_on_3), (Title, corrupt_world)]
                   (new_Book pdf_path)))) \<le> 1 \<and>
        length (filter (\<lambda>k. k = PdfIsbn \<or> k = EpubIsbn)
          (calls (reads db [(Title, pdf_world pages_isbn_on_3), (Author, corrupt_world),
                            (Metadata, pdf_world pages_isbn_on_3), (Title, corrupt_world)]
                   (new_Book pdf_path)))) \<le> 1 \<and>
        format_cache (snd (format db (new_Book pdf_path))) = Some (codes ''PDF'') \<and>
        metadata_cache (snd (metadata db (pdf_world pages_isbn_on_3) (new_Book pdf_path))) =
           Some [codes ''title'' \<mapsto> Some (codes ''Sample Book''), codes ''author'' \<mapsto> None] \<and>
        title_cache (snd (title db (pdf_world pages_isbn_on_3) (new_Book pdf_path))) =
           Some (Some (codes ''Sample Book'')) \<and>
        author_cache (snd (author db (pdf_world pages_isbn_on_3) (new_Book pdf_path))) = Some None \<and>
        isbn_cache (snd (isbn db (pdf_world pages_isbn_on_3) (new_Book pdf_path))) =
           Some (Some (codes ''9781234567897'')) \<and>
        format db (snd (format db (new_Book pdf_path))) =
           (Inr (codes ''PDF''), snd (format db (new_Book pdf_path))) \<and>
        metadata db corrupt_world (snd (metadata db (pdf_world pages_isbn_on_3) (new_Book pdf_path))) =
           (Inr [codes ''title'' \<mapsto> Some (codes ''Sample Book''), codes ''author'' \<mapsto> None],
            snd (metadata db (pdf_world pages_isbn_on_3) (new_Book pdf_path))) \<and>
        title db corrupt_world (snd (title db (pdf_world pages_isbn_on_3) (new_Book pdf_path))) =
           (Inr (Some (codes ''Sample Book'')),
            snd (title db (pdf_world pages_isbn_on_3) (new_Book pdf_path))) \<and>
        author db corrupt_world (snd (author db (pdf_world pages_isbn_on_3) (new_Book pdf_path))) =
           (Inr None, snd (author db (pdf_world pages_isbn_on_3) (new_Book pdf_path))) \<and>
        isbn db corrupt_world (snd (isbn db (pdf_world pages_isbn_on_3) (new_Book pdf_path))) =
           (Inr (Some (codes ''9781234567897'')),
            snd (isbn db (pdf_world pages_isbn_on_3) (new_Book pdf_path)))"
proof (intro allI)
  fix db :: unicode_db
  let ?w = "pdf_world pages_isbn_on_3"
  let ?b = "new_Book pdf_path"
  let ?rs = "[(Title, ?w), (Author, corrupt_world), (Metadata, ?w), (Title, corrupt_world)]"
  let ?m = "[codes ''title'' \<mapsto> Some (codes ''Sample Book''), codes ''author'' \<mapsto> None]"
  have f: "format db ?b = (Inr (codes ''PDF''), snd (format db ?b))"
    "metadata db ?w ?b = (Inr ?m, snd (metadata db ?w ?b))"
    "title db ?w ?b = (Inr (Some (codes ''Sample Book'')), snd (title db ?w ?b))"
    "author db ?w ?b = (Inr None, snd (author db ?w ?b))"
    "isbn db ?w ?b = (Inr (Some (codes ''9781234567897'')), snd (isbn db ?w ?b))"
    by (simp_all add: prod_eq_iff format_sample metadata_sample title_sample author_sample
          isbn_sample)
  note c = cached_attributes_computed_once
    [where db = db and w = ?w and w' = corrupt_world and self = ?b and rs = ?rs and fp = pdf_path
       and ?v1.0 = "fst (format db ?b)" and ?s1.0 = "snd (format db ?b)"
       and ?v2.0 = "fst (metadata db ?w ?b)" and ?s2.0 = "snd (metadata db ?w ?b)"
       and ?v3.0 = "fst (title db ?w ?b)" and ?s3.0 = "snd (title db ?w ?b)"
       and ?v4.0 = "fst (author db ?w ?b)" and ?s4.0 = "snd (author db ?w ?b)"
       and ?v5.0 = "fst (isbn db ?w ?b)" and ?s5.0 = "snd (isbn db ?w ?b)"
       and ?a1.0 = "codes ''PDF''" and ?t1.0 = "snd (format db ?b)"
       and ?a2.0 = ?m and ?t2.0 = "snd (metadata db ?w ?b)"
       and ?a3.0 = "Some (codes ''Sample Book'')" and ?t3.0 = "snd (title db ?w ?b)"
       and ?a4.0 = None and ?t4.0 = "snd (author db ?w ?b)"
       and ?a5.0 = "Some (codes ''9781234567897'')" and ?t5.0 = "snd (isbn db ?w ?b)"]
  have 0: "format db (snd (format db ?b)) = format db ?b" using c by simp
  have 1: "metadata db corrupt_world (snd (metadata db ?w ?b)) = metadata db ?w ?b" using c by simp
  have 2: "title db corrupt_world (snd (title db ?w ?b)) = title db ?w ?b" using c by simp
  have 3: "author db corrupt_world (snd (author db ?w ?b)) = author db ?w ?b" using c by simp
  have 4: "isbn db corrupt_world (snd (isbn db ?w ?b)) = isbn db ?w ?b" using c by simp
  have 5: "length (filter (\<lambda>k. k = PdfMetadata \<or> k = EpubMetadata) (calls (reads db ?rs ?b))) \<le> 1"
    using c by blast
  have 6: "length (filter (\<lambda>k. k = PdfIsbn \<or> k = EpubIsbn) (calls (reads db ?rs ?b))) \<le> 1"
    using c by blast
  have s: "format_cache (snd (format db ?b)) = Some (codes ''PDF'')"
    "metadata_cache (snd (metadata db ?w ?b)) = Some ?m"
    "title_cache (snd (title db ?w ?b)) = Some (Some (codes ''Sample Book''))"
    "author_cache (snd (author db ?w ?b)) = Some None"
    "isbn_cache (snd (isbn db ?w ?b)) = Some (Some (codes ''9781234567897''))"
    using c f by blast+
  have h: "format db (snd (format db ?b)) = (Inr (codes ''PDF''), snd (format db ?b))"
    by (rule cached_attributes_computed_once [THEN conjunct2, THEN conjunct2, THEN conjunct2, THEN conjunct2, THEN conjunct2, THEN conjunct2, THEN conjunct2, THEN conjunct2, THEN conjunct2, THEN conjunct2, THEN conjunct2, THEN conjunct2, THEN conjunct1, THEN mp]) (rule s(1))
  have h2: "metadata db corrupt_world (snd (metadata db ?w ?b)) = (Inr ?m, snd (metadata db ?w ?b))"
    by (rule cached_attributes_computed_once [THEN conjunct2, THEN conjunct2, THEN conjunct2, THEN conjunct2, THEN conjunct2, THEN conjunct2, THEN conjunct2, THEN conjunct2, THEN conjunct2, THEN conjunct2, THEN conjunct2, THEN conjunct2, THEN conjunct2, THEN conjunct1, THEN mp]) (rule s(2))
  have h3: "title db corrupt_world (snd (title db ?w ?b)) =
      (Inr (Some (codes ''Sample Book'')), snd (title db ?w ?b))"
    by (rule cached_attributes_computed_once [THEN conjunct2, THEN conjunct2, THEN conjunct2, THEN conjunct2, THEN conjunct2, THEN conjunct2, THEN conjunct2, THEN conjunct2, THEN conjunct2, THEN conjunct2, THEN conjunct2, THEN conjunct2, THEN conjunct2, THEN conjunct2, THEN conjunct1, THEN mp]) (rule s(3))
  have h4: "author db corrupt_world (snd (author db ?w ?b)) = (Inr None, snd (author db ?w ?b))"
    by (rule cached_attributes_computed_once [THEN conjunct2, THEN conjunct2, THEN conjunct2, THEN conjunct2, THEN conjunct2, THEN conjunct2, THEN conjunct2, THEN conjunct2, THEN conjunct2, THEN conjunct2, THEN conjunct2, THEN conjunct2, THEN conjunct2, THEN conjunct2, THEN conjunct2, THEN conjunct1, THEN mp]) (rule s(4))
  have h5: "isbn db corrupt_world (snd (isbn db ?w ?b)) =
      (Inr (Some (codes ''9781234567897'')), snd (isbn db ?w ?b))"
    by (rule cached_attributes_computed_once [THEN conjunct2, THEN conjunct2, THEN conjunct2, THEN conjunct2, THEN conjunct2, THEN conjunct2, THEN conjunct2, THEN conjunct2, THEN conjunct2, THEN conjunct2, THEN conjunct2, THEN conjunct2, THEN conjunct2, THEN conjunct2, THEN conjunct2, THEN conjunct2, THEN mp]) (rule s(5))
  from title_sample [of db pages_isbn_on_3] 0 1 2 3 4 5 6 s h h2 h3 h4 h5
  show "fst (title db ?w ?b) = Inr (Some (codes ''Sample Book'')) \<and>
        format db (snd (format db ?b)) = format db ?b \<and>
        metadata db corrupt_world (snd (metadata db ?w ?b)) = metadata db ?w ?b \<and>
        title db corrupt_world (snd (title db ?w ?b)) = title db ?w ?b \<and>
        author db corrupt_world (snd (author db ?w ?b)) = author db ?w ?b \<and>
        isbn db corrupt_world (snd (isbn db ?w ?b)) = isbn db ?w ?b \<and>
        length (filter (\<lambda>k. k = PdfMetadata \<or> k = EpubMetadata) (calls (reads db ?rs ?b))) \<le> 1 \<and>
        length (filter (\<lambda>k. k = PdfIsbn \<or> k = EpubIsbn) (calls (reads db ?rs ?b))) \<le> 1 \<and>
        format_cache (snd (format db ?b)) = Some (codes ''PDF'') \<and>
        metadata_cache (snd (metadata db ?w ?b)) = Some ?m \<and>
        title_cache (snd (title db ?w ?b)) = Some (Some (codes ''Sample Book'')) \<and>
        author_cache (snd (author db ?w ?b)) = Some None \<and>
        isbn_cache (snd (isbn db ?w ?b)) = Some (Some (codes ''9781234567897'')) \<and>
        format db (snd (format db ?b)) = (Inr (codes ''PDF''), snd (format db ?b)) \<and>
        metadata db corrupt_world (snd (metadata db ?w ?b)) = (Inr ?m, snd (metadata db ?w ?b)) \<and>
        title db corrupt_world (snd (title db ?w ?b)) =
           (Inr (Some (codes ''Sample Book'')), snd (title db ?w ?b)) \<and>
        author db corrupt_world (snd (author db ?w ?b)) = (Inr None, snd (author db ?w ?b)) \<and>
        isbn db corrupt_world (snd (isbn db ?w ?b)) =
           (Inr (Some (codes ''9781234567897'')), snd (isbn db ?w ?b))"
    by (intro conjI)
qed

section \<open>The matcher on the sample ISBNs\<close>

lemma not_word_not_decimal: "\<not> is_word db c \<Longrightarrow> \<not> is_decimal db c"
  by (auto simp: is_word_def is_decimal_def split: if_splits)

lemma is_decimal_ascii: "c < 128 \<Longrightarrow> is_decimal db c = (48 \<le> c \<and> c \<le> 57)"
  by (simp add: is_decimal_def ascii_digit_def)

lemma is_space_ascii: "c < 128 \<Longrightarrow> is_space db c = (9 \<le> c \<and> c \<le> 13 \<or> 28 \<le> c \<and> c \<le> 32)"
  by (simp add: is_space_def)

lemma is_word_ascii:
  "c < 128 \<Longrightarrow> is_word db c = (48 \<le> c \<and> c \<le> 57 \<or> 65 \<le> c \<and> c \<le> 90 \<or> 97 \<le> c \<and> c \<le> 122 \<or> c = 95)"
  by (simp add: is_word_def ascii_digit_def ascii_upper_letter_def ascii_lower_letter_def)

lemmas group_defs = GB_def ISBN_RE_def isbn_prefix_def isbn13_shape_def isbn10_shape_def sep_def
  lit_def in_class_def at_boundary_def is_word_opt_def consumed_def codes_def match_at_def
  is_decimal_ascii is_space_ascii is_word_ascii

lemma group_hyphenated_at_end:
  "(case ms db GB \<lparr>prev = p, rest = codes ''978-0-13-468599-1'', cap = None\<rparr> of
      [] \<Rightarrow> False | m # _ \<Rightarrow> cap m = Some (codes ''978-0-13-468599-1''))"
  by (simp add: group_defs)

lemma group_hyphenated_before:
  assumes "\<not> is_word db c"
  shows "(case ms db GB \<lparr>prev = p, rest = codes ''978-0-13-468599-1'' @ c # cs, cap = None\<rparr> of
      [] \<Rightarrow> False | m # _ \<Rightarrow> cap m = Some (codes ''978-0-13-468599-1''))"
  using assms by (simp add: group_defs)

lemma ms_cap: "grp_free r \<Longrightarrow> st' \<in> set (ms db r st) \<Longrightarrow> cap st' = cap st"
proof (induction r arbitrary: st st')
  case (Cat r1 r2)
  then obtain st1 where "st1 \<in> set (ms db r1 st)" "st' \<in> set (ms db r2 st1)" by auto
  with Cat show ?case by fastforce
next
  case (Rep as lo hi)
  then show ?case by auto
qed (auto split: list.splits if_splits)

lemma ISBN_RE_GB: "ISBN_RE = Cat Bnd (Cat (Opt isbn_prefix) GB)"
  by (simp add: ISBN_RE_def GB_def)

lemma first_attempt_at_9:
  assumes "\<not> is_word_opt db q"
  shows "ms db ISBN_RE \<lparr>prev = q, rest = 57 # ts, cap = None\<rparr> =
         ms db GB \<lparr>prev = q, rest = 57 # ts, cap = None\<rparr>"
  using assms
  by (simp add: ISBN_RE_GB isbn_prefix_def lit_def in_class_def at_boundary_def is_word_opt_def
        is_word_ascii)

lemma is_word_opt_lastp:
  "pre = [] \<or> \<not> is_word db (last pre) \<Longrightarrow> \<not> is_word_opt db (lastp None pre)"
  by (auto simp: lastp_def is_word_opt_def)

lemma group_at_hyphenated:
  assumes "post = [] \<or> \<not> is_word db (hd post)"
  shows "\<exists>m R'. ms db GB \<lparr>prev = p, rest = codes ''978-0-13-468599-1'' @ post, cap = None\<rparr> = m # R' \<and>
           cap m = Some (codes ''978-0-13-468599-1'')"
proof (cases post)
  case Nil
  with group_hyphenated_at_end [of db p] show ?thesis by (auto split: list.splits)
next
  case (Cons c cs)
  with assms have "\<not> is_word db c" by simp
  from group_hyphenated_before [OF this, of p cs] Cons show ?thesis by (auto split: list.splits)
qed

lemma codes_hyphenated: "codes ''978-0-13-468599-1'' @ post = 57 # codes ''78-0-13-468599-1'' @ post"
  by (simp add: codes_def)

lemma normalize_hyphenated: "normalize_isbn db (codes ''978-0-13-468599-1'') = codes ''9780134685991''"
  by (simp add: normalize_isbn_filter codes_def ascii_digit_def)

lemma codes_plain: "codes ''9780134685991'' @ post = 57 # codes ''780134685991'' @ post"
  by (simp add: codes_def)

lemma normalize_plain: "normalize_isbn db (codes ''9780134685991'') = codes ''9780134685991''"
  by (simp add: normalize_isbn_filter codes_def ascii_digit_def)

lemma is_word_opt_simps [simp]:
  "is_word_opt db None = False" "is_word_opt db (Some c) = is_word db c"
  by (simp_all add: is_word_opt_def)

lemmas search_defs = GB_def ISBN_RE_def isbn_prefix_def isbn13_shape_def isbn10_shape_def sep_def
  lit_def in_class_def at_boundary_def consumed_def codes_def match_at_def
  is_decimal_ascii is_space_ascii is_word_ascii

lemma search_at_ISBN10:
  assumes "post = [] \<or> \<not> is_word db (hd post)"
  shows "map_option cap (search_from db ISBN_RE q (codes ''ISBN: 0-13-468599-1'' @ post)) =
         Some (Some (codes ''0-13-468599-1''))"
proof (cases post)
  case Nil
  show ?thesis
  proof (cases "is_word_opt db q")
    case True
    with Nil show ?thesis by (simp add: search_defs)
  next
    case False
    with Nil show ?thesis by (simp add: search_defs)
  qed
next
  case (Cons c cs)
  with assms have w: "\<not> is_word db c" by simp
  show ?thesis
  proof (cases "is_word_opt db q")
    case True
    with Cons w show ?thesis by (simp add: search_defs)
  next
    case False
    with Cons w show ?thesis by (simp add: search_defs)
  qed
qed

lemma normalize_ISBN10: "normalize_isbn db (codes ''0-13-468599-1'') = codes ''0134685991''"
  by (simp add: normalize_isbn_filter codes_def ascii_digit_def)

lemma no_match_before_search:
  "no_match_before db r p pre tail \<Longrightarrow>
   search_from db r p (pre @ tail) = search_from db r (lastp p pre) tail"
  by (induction pre arbitrary: p) simp_all

lemma spaces_first:
  "list_all P s \<Longrightarrow> \<not> P t \<Longrightarrow>
   \<exists>more. rep_ends P 0 None p (s @ t # ts) = (lastp p s, t # ts) # more"
proof (induction s arbitrary: p)
  case Nil
  then show ?case by simp
next
  case (Cons a s)
  from Cons.prems have "list_all P s" "P a" by simp_all
  from Cons.IH [OF this(1) Cons.prems(2), of "Some a"] obtain more where
    "rep_ends P 0 None (Some a) (s @ t # ts) = (lastp (Some a) s, t # ts) # more" by blast
  with \<open>P a\<close> show ?case by simp
qed

lemma isbn_leadE:
  assumes "isbn_lead db l" "l \<noteq> []"
  shows "\<exists>h s. l = h @ s \<and> h \<in> set isbn_heads \<and> list_all (is_space db) s"
proof -
  from assms obtain h where h: "h \<in> set isbn_heads" "take (length h) l = h"
    "list_all (is_space db) (drop (length h) l)"
    by (auto simp: isbn_lead_def list_ex_iff)
  have "l = take (length h) l @ drop (length h) l" by simp
  with h have "l = h @ drop (length h) l" by simp
  with h(1,3) show ?thesis by blast
qed

lemmas lead_defs = isbn_prefix_def lit_def in_class_def codes_def is_space_ascii

lemma lead_first_head:
  assumes h: "h \<in> set isbn_heads" and s: "list_all (is_space db) s"
  shows "\<exists>more. ms db isbn_prefix \<lparr>prev = q, rest = h @ s @ 57 # ts, cap = None\<rparr> =
           \<lparr>prev = lastp q (h @ s), rest = 57 # ts, cap = None\<rparr> # more"
proof (cases s)
  case Nil
  from h show ?thesis unfolding Nil isbn_heads_def
    by (auto simp: lead_defs)
next
  case (Cons c s')
  with s have c: "is_space db c" and s': "list_all (is_space db) s'" by simp_all
  from c have n: "c \<noteq> 45" "c \<noteq> 58" by (auto simp: is_space_ascii)
  have "\<not> in_class db [Space] 57" by (simp add: in_class_def is_space_ascii)
  moreover from s' have "list_all (in_class db [Space]) s'"
    by (simp add: list_all_iff in_class_def)
  ultimately obtain more where
    m: "rep_ends (in_class db [Space]) 0 None (Some c) (s' @ 57 # ts) =
        (lastp (Some c) s', 57 # ts) # more"
    using spaces_first [of "in_class db [Space]" s' 57 "Some c" ts] by blast
  from h show ?thesis unfolding Cons isbn_heads_def
    using c n m by (auto simp: lead_defs)
qed

lemma at_boundary_cap [simp]: "at_boundary db (st\<lparr>cap := v\<rparr>) = at_boundary db st"
  by (simp add: at_boundary_def)

lemma match_at_lead:
  assumes l: "isbn_lead db lead" and q: "\<not> is_word_opt db q"
    and G: "\<And>p. \<exists>m R'. ms db GB \<lparr>prev = p, rest = 57 # ts, cap = None\<rparr> = m # R' \<and> cap m = Some g"
  shows "\<exists>m. match_at db ISBN_RE q (lead @ 57 # ts) = Some m \<and> cap m = Some g"
proof (cases "lead = []")
  case True
  from G [of q] obtain m R' where
    "ms db GB \<lparr>prev = q, rest = 57 # ts, cap = None\<rparr> = m # R'" "cap m = Some g" by blast
  with True show ?thesis by (simp add: match_at_def first_attempt_at_9 [OF q])
next
  case False
  from isbn_leadE [OF l False] obtain h s where
    hs: "lead = h @ s" "h \<in> set isbn_heads" "list_all (is_space db) s" by blast
  from lead_first_head [OF hs(2,3), of q ts] obtain more where
    m1: "ms db isbn_prefix \<lparr>prev = q, rest = h @ s @ 57 # ts, cap = None\<rparr> =
         \<lparr>prev = lastp q (h @ s), rest = 57 # ts, cap = None\<rparr> # more" by blast
  from G [of "lastp q (h @ s)"] obtain m R' where
    m2: "ms db GB \<lparr>prev = lastp q (h @ s), rest = 57 # ts, cap = None\<rparr> = m # R'"
      "cap m = Some g" by blast
  have b: "at_boundary db \<lparr>prev = q, rest = h @ s @ 57 # ts, cap = None\<rparr>"
    using hs(2) q by (auto simp: isbn_heads_def codes_def at_boundary_def is_word_ascii)
  have "\<exists>R. ms db ISBN_RE \<lparr>prev = q, rest = lead @ 57 # ts, cap = None\<rparr> = m # R"
    using b m1 m2 by (simp add: ISBN_RE_GB hs(1))
  with m2(2) show ?thesis by (auto simp: match_at_def)
qed

lemma find_at_lead:
  assumes nm: "no_match_before db ISBN_RE None pre (lead @ 57 # ts)"
    and l: "isbn_lead db lead" and b: "pre = [] \<or> \<not> is_word db (last pre)"
    and G: "\<And>p. \<exists>m R'. ms db GB \<lparr>prev = p, rest = 57 # ts, cap = None\<rparr> = m # R' \<and> cap m = Some g"
  shows "find_isbn_in_text db (pre @ lead @ 57 # ts) = Inr (Some (normalize_isbn db g))"
proof -
  from match_at_lead [OF l is_word_opt_lastp [OF b] G] obtain m where
    m: "match_at db ISBN_RE (lastp None pre) (lead @ 57 # ts) = Some m" "cap m = Some g"
    by blast
  obtain c cs where c: "lead @ 57 # ts = c # cs" by (cases lead) auto
  have "search_from db ISBN_RE (lastp None pre) (lead @ 57 # ts) = Some m"
    using m(1) unfolding c by simp
  with no_match_before_search [OF nm]
  have "re_search db ISBN_RE (pre @ lead @ 57 # ts) = Some m" by (simp add: re_search_def)
  with m(2) show ?thesis by (simp add: find_isbn_in_text_def)
qed

lemma digit_after_digits:
  "list_all (is_decimal db) u \<Longrightarrow> digit_after db v \<Longrightarrow> digit_after db (u @ v)"
proof (induction u)
  case Nil
  then show ?case by simp
next
  case (Cons a u)
  then have "digit_after db (u @ v)" "is_decimal db a" by simp_all
  then show ?case by (cases "u @ v") simp_all
qed

lemma digit_after_group:
  assumes "length s \<le> 1" "u \<noteq> []" "list_all (is_decimal db) u" "digit_after db v"
  shows "digit_after db (s @ u @ v)"
proof -
  have d: "digit_after db (u @ v)" using assms(3,4) by (rule digit_after_digits)
  obtain a u' where u: "u = a # u'" using assms(2) by (cases u) auto
  with assms(3) have "is_decimal db a" by simp
  with d u assms(1) show ?thesis by (cases s) simp_all
qed

lemma digit_after_split:
  "digit_after db (xs @ c # ys) \<Longrightarrow> \<not> is_decimal db c \<Longrightarrow> ys \<noteq> [] \<and> is_decimal db (hd ys)"
proof (induction xs)
  case Nil
  then show ?case by (cases ys) simp_all
next
  case (Cons a xs)
  from Cons.prems(1) have "digit_after db (xs @ c # ys)" by (cases xs) simp_all
  from Cons.IH [OF this Cons.prems(2)] show ?case .
qed

lemma lang_isbn13_digit_after:
  assumes "g \<in> lang db isbn13_shape"
  shows "digit_after db g"
proof -
  from assms obtain c3 s0 u1 s1 u2 s2 u3 s3 c where
    g: "g = 57 # 55 # c3 # s0 @ u1 @ s1 @ u2 @ s2 @ u3 @ s3 @ [c]"
    and c3: "c3 = 56 \<or> c3 = 57"
    and u: "u1 \<in> lang db (Rep [Digit] (Suc 0) (Some 5))" "u2 \<in> lang db (Rep [Digit] (Suc 0) None)"
      "u3 \<in> lang db (Rep [Digit] (Suc 0) None)"
    and s: "s0 \<in> lang db sep" "s1 \<in> lang db sep" "s2 \<in> lang db sep" "s3 \<in> lang db sep"
    and c: "is_decimal db c"
    unfolding isbn13_shape_def lit_def by (auto simp del: lang.simps(8) simp: in_class_def)
  from u have u': "u1 \<noteq> []" "list_all (is_decimal db) u1" "u2 \<noteq> []" "list_all (is_decimal db) u2"
    "u3 \<noteq> []" "list_all (is_decimal db) u3"
    by (auto simp: in_class_def list_all_iff)
  from s have s': "length s0 \<le> 1" "length s1 \<le> 1" "length s2 \<le> 1" "length s3 \<le> 1"
    by (simp_all add: sep_def)
  have 1: "digit_after db (s3 @ [c] @ [])"
    using s'(4) c by (intro digit_after_group) simp_all
  have 2: "digit_after db (s2 @ u3 @ s3 @ [c])"
    using digit_after_group [OF s'(3) u'(5,6) 1] by simp
  have 3: "digit_after db (s1 @ u2 @ s2 @ u3 @ s3 @ [c])"
    by (rule digit_after_group [OF s'(2) u'(3,4) 2])
  have 4: "digit_after db (s0 @ u1 @ s1 @ u2 @ s2 @ u3 @ s3 @ [c])"
    by (rule digit_after_group [OF s'(1) u'(1,2) 3])
  have "list_all (is_decimal db) [57, 55, c3]" using c3 by (auto simp: is_decimal_ascii)
  from digit_after_digits [OF this 4] show ?thesis by (simp add: g)
qed

lemma rep_ends_complete:
  "list_all P w \<Longrightarrow> lo \<le> length w \<Longrightarrow> (case hi of None \<Rightarrow> True | Some h \<Rightarrow> length w \<le> h) \<Longrightarrow>
   (lastp p w, t) \<in> set (rep_ends P lo hi p (w @ t))"
proof (induction w arbitrary: lo hi p)
  case Nil
  then show ?case by (cases t) simp_all
next
  case (Cons c w)
  have "(lastp (Some c) w, t) \<in> set (rep_ends P (lo - 1) (map_option (\<lambda>h. h - 1) hi) (Some c) (w @ t))"
    using Cons.prems by (intro Cons.IH) (auto split: option.splits)
  moreover have "P c" "hi \<noteq> Some 0" using Cons.prems by auto
  ultimately show ?case by simp
qed

lemma ms_complete:
  "consuming r \<Longrightarrow> w \<in> lang db r \<Longrightarrow>
   st\<lparr>prev := lastp (prev st) w, rest := t\<rparr> \<in> set (ms db r (st\<lparr>rest := w @ t\<rparr>))"
proof (induction r arbitrary: w st t)
  case (Cat r1 r2)
  from Cat.prems obtain u v where w: "w = u @ v" and u: "u \<in> lang db r1" and v: "v \<in> lang db r2"
    by auto
  let ?st1 = "st\<lparr>prev := lastp (prev st) u, rest := v @ t\<rparr>"
  from Cat.prems(1) have c: "consuming r1" "consuming r2" by simp_all
  have 1: "?st1 \<in> set (ms db r1 (st\<lparr>rest := u @ v @ t\<rparr>))" by (rule Cat.IH(1) [OF c(1) u])
  have "?st1\<lparr>prev := lastp (prev ?st1) v, rest := t\<rparr> \<in> set (ms db r2 (?st1\<lparr>rest := v @ t\<rparr>))"
    by (rule Cat.IH(2) [OF c(2) v])
  then have 2: "st\<lparr>prev := lastp (prev st) (u @ v), rest := t\<rparr> \<in> set (ms db r2 ?st1)" by simp
  from 1 2 show ?case unfolding w by auto
next
  case (Rep as lo hi)
  from Rep.prems(2) have "(lastp (prev st) w, t) \<in> set (rep_ends (in_class db as) lo hi (prev st) (w @ t))"
    by (intro rep_ends_complete) simp_all
  then show ?case by (force simp: image_iff)
next
  case (Alt r1 r2)
  then show ?case by auto
next
  case (Opt r)
  show ?case
  proof (cases "w \<in> lang db r")
    case True
    from Opt.prems(1) have "consuming r" by simp
    from Opt.IH [OF this True] show ?thesis by simp
  next
    case False
    with Opt.prems(2) have "w = []" by simp
    then show ?thesis by simp
  qed
next
  case (Chars as)
  then obtain c where "w = [c]" "in_class db as c" by auto
  then show ?case by (simp add: lastp_def)
next
  case (NotChars as)
  then obtain c where "w = [c]" "\<not> in_class db as c" by auto
  then show ?case by (simp add: lastp_def)
qed simp_all

lemma lang_CatI: "u \<in> lang db r1 \<Longrightarrow> v \<in> lang db r2 \<Longrightarrow> u @ v \<in> lang db (Cat r1 r2)"
  by auto

lemma plain_in_lang: "codes ''9780134685991'' \<in> lang db isbn13_shape"
proof -
  have "[57] @ [55] @ [56] @ [] @ [48, 49, 51, 52, 54] @ [] @ [56, 53, 57] @ [] @ [57] @ [] @ [49] @ []
          \<in> lang db isbn13_shape"
    unfolding isbn13_shape_def seq.simps lit_def
    by (intro lang_CatI) (simp_all add: in_class_def sep_def is_decimal_ascii)
  then show ?thesis by (simp add: codes_def)
qed

lemma plain_good:
  "\<lparr>prev = Some 49, rest = post, cap = None\<rparr> \<in>
     set (ms db isbn13_shape \<lparr>prev = p, rest = codes ''9780134685991'' @ post, cap = None\<rparr>)"
proof -
  have c: "consuming isbn13_shape" by (simp add: isbn13_shape_def lit_def sep_def)
  from ms_complete [OF c plain_in_lang, where st = "\<lparr>prev = p, rest = [], cap = None\<rparr>" and t = post]
  show ?thesis by (simp add: lastp_def codes_def)
qed

lemma decimal_is_word: "is_decimal db c \<Longrightarrow> is_word db c"
  using not_word_not_decimal by blast

lemma GB_first:
  assumes g: "g \<in> set (ms db isbn13_shape st)" and b: "at_boundary db g"
    and o: "\<forall>x\<in>set (ms db isbn13_shape st). x = g \<or> \<not> at_boundary db x"
  shows "\<exists>more. ms db GB st = g\<lparr>cap := Some (consumed st g)\<rparr> # more"
proof -
  from split_list_first [OF g] obtain ys zs where
    L: "ms db isbn13_shape st = ys @ g # zs" and n: "g \<notin> set ys" by blast
  from o n have bad: "\<forall>x\<in>set ys. \<not> at_boundary db x" unfolding L by auto
  have z: "concat (map (ms db (Cat Bnd Eps) \<circ> (\<lambda>st'. st'\<lparr>cap := Some (consumed st st')\<rparr>)) ys) = []"
    using bad by simp
  show ?thesis using b by (simp add: GB_def L z)
qed

lemma plain_results:
  assumes H1: "post = [] \<or> \<not> is_word db (hd post)" and H2: "\<not> sep_then_number db post"
    and m: "st' \<in> set (ms db isbn13_shape \<lparr>prev = p, rest = codes ''9780134685991'' @ post, cap = None\<rparr>)"
  shows "st' = \<lparr>prev = Some 49, rest = post, cap = None\<rparr> \<or> \<not> at_boundary db st'"
proof -
  let ?plain = "codes ''9780134685991''"
  have gf: "grp_free isbn13_shape" by (simp add: isbn13_shape_def lit_def sep_def)
  from ms_cap [OF gf m] have cap: "cap st' = None" by simp
  from ms_sound [OF m] obtain w where w: "w \<in> lang db isbn13_shape"
    and eq: "?plain @ post = w @ rest st'" and pw: "prev st' = lastp p w" by auto
  from lang_isbn13 [OF w] obtain c3 w' where ww: "w = 57 # 55 # c3 # w'" and bo: "body_ok db w'"
    by blast
  from ww pw have pl: "prev st' = Some (last w)" by (simp add: lastp_def)
  have da: "digit_after db w" by (rule lang_isbn13_digit_after [OF w])
  have W: "\<forall>c\<in>set ?plain. is_word db c" by (simp add: codes_def is_word_ascii)
  from eq obtain us where
    "?plain = w @ us \<and> us @ post = rest st' \<or> ?plain @ us = w \<and> post = us @ rest st'"
    by (auto simp: append_eq_append_conv2)
  then consider (exact) "w = ?plain" "rest st' = post"
    | (inside) us where "us \<noteq> []" "?plain = w @ us" "rest st' = us @ post"
    | (beyond) us where "us \<noteq> []" "w = ?plain @ us" "post = us @ rest st'"
    by (cases "us = []") auto
  then show ?thesis
  proof cases
    case exact
    with pl cap have "st' = \<lparr>prev = Some 49, rest = post, cap = None\<rparr>"
      by (simp add: codes_def)
    then show ?thesis ..
  next
    case inside
    from ww have "w \<noteq> []" by simp
    then have "last w \<in> set w" by simp
    then have "last w \<in> set ?plain" unfolding inside(2) by simp
    moreover from inside(1) have "hd us \<in> set us" by simp
    then have "hd us \<in> set ?plain" unfolding inside(2) by simp
    ultimately have "is_word db (last w)" "is_word db (hd us)" using W by blast+
    moreover obtain u0 us' where "us = u0 # us'" using inside(1) by (cases us) auto
    ultimately have "\<not> at_boundary db st'"
      using pl inside(3) by (simp add: at_boundary_def)
    then show ?thesis ..
  next
    case beyond
    obtain c us' where us: "us = c # us'" using beyond(1) by (cases us) auto
    with beyond(3) H1 have nw: "\<not> is_word db c" by simp
    then have nd: "\<not> is_decimal db c" by (rule not_word_not_decimal)
    from da have "digit_after db (?plain @ c # us')" unfolding beyond(2) us .
    from digit_after_split [OF this nd] obtain d us'' where us': "us' = d # us''"
      and d: "is_decimal db d" by (cases us') auto
    have sub: "set us \<subseteq> set w'" using ww beyond(2) by (auto simp: codes_def)
    with bo have bu: "\<forall>x\<in>set us. is_decimal db x \<or> x = 45 \<or> is_space db x"
      by (auto simp: body_ok_def list_all_iff)
    with us nd have sc: "c = 45 \<or> is_space db c" by auto
    let ?ds = "us'' @ rest st'"
    have post: "post = c # d # ?ds" using beyond(3) us us' by simp
    from H2 sc d obtain a as where dw: "dropWhile (is_decimal db) ?ds = a # as"
      and a: "is_word db a" "\<not> is_space db a"
      unfolding post by (auto simp: sep_then_number_def split: list.splits)
    have a45: "a \<noteq> 45" using a(1) by (auto simp: is_word_ascii)
    have alld: "\<forall>x\<in>set us''. is_decimal db x"
    proof (rule ccontr)
      assume "\<not> (\<forall>x\<in>set us''. is_decimal db x)"
      then obtain x where x: "x \<in> set us''" "\<not> is_decimal db x" by blast
      then have "dropWhile (is_decimal db) ?ds = dropWhile (is_decimal db) us'' @ rest st'"
        by (rule dropWhile_append1)
      moreover from x have ne: "dropWhile (is_decimal db) us'' \<noteq> []" by (auto simp: dropWhile_eq_Nil_conv)
      ultimately have "a = hd (dropWhile (is_decimal db) us'')" using dw by (cases "dropWhile (is_decimal db) us''") auto
      with ne have "a \<in> set us''" "\<not> is_decimal db a"
        using set_dropWhileD [of a "is_decimal db" us''] hd_dropWhile [OF ne] by auto
      with bu us us' a a45 show False by auto
    qed
    then have "dropWhile (is_decimal db) ?ds = dropWhile (is_decimal db) (rest st')"
      by (intro dropWhile_append2) simp
    with dw have r: "dropWhile (is_decimal db) (rest st') = a # as" by simp
    then obtain r0 rs where rr: "rest st' = r0 # rs" by (cases "rest st'") auto
    have "is_word db r0"
    proof (cases "is_decimal db r0")
      case True
      then show ?thesis by (rule decimal_is_word)
    next
      case False
      with r rr a(1) show ?thesis by simp
    qed
    moreover have "last w = last (d # us'')" unfolding beyond(2) us us' by simp
    then have "is_decimal db (last w)" using d alld by (cases us'' rule: rev_cases) auto
    then have "is_word db (last w)" by (rule decimal_is_word)
    ultimately have "\<not> at_boundary db st'" using pl rr by (simp add: at_boundary_def)
    then show ?thesis ..
  qed
qed

lemma group_at_plain:
  assumes H1: "post = [] \<or> \<not> is_word db (hd post)" and H2: "\<not> sep_then_number db post"
  shows "\<exists>m R'. ms db GB \<lparr>prev = p, rest = codes ''9780134685991'' @ post, cap = None\<rparr> = m # R' \<and>
           cap m = Some (codes ''9780134685991'')"
proof -
  let ?st = "\<lparr>prev = p, rest = codes ''9780134685991'' @ post, cap = None\<rparr>"
  let ?g = "\<lparr>prev = Some 49, rest = post, cap = None\<rparr>"
  have b: "at_boundary db ?g" using H1 by (cases post) (simp_all add: at_boundary_def is_word_ascii)
  have o: "\<forall>x\<in>set (ms db isbn13_shape ?st). x = ?g \<or> \<not> at_boundary db x"
    using plain_results [OF H1 H2] by blast
  from GB_first [OF plain_good b o] obtain more where
    "ms db GB ?st = ?g\<lparr>cap := Some (consumed ?st ?g)\<rparr> # more" by blast
  moreover have "consumed ?st ?g = codes ''9780134685991''" by (simp add: consumed_def)
  ultimately show ?thesis by simp
qed

lemmas hyp_defs = isbn_lead_def isbn_heads_def sep_then_number_def

text \<open>
  C3, as amended. A text that holds \<open>978-0-13-468599-1\<close> need not give that ISBN: the
  leftmost match wins, and a match begins and ends at a word boundary. Let the text be
  \<open>pre\<close>, \<open>lead\<close>, the ISBN and \<open>post\<close>, where \<open>lead\<close> is empty or an ISBN prefix of
  the pattern, \<open>pre\<close> is empty or ends with a character that is not a word character, and
  \<open>post\<close> is empty or begins with a character that is not a word character. When no
  match of the pattern begins in \<open>pre\<close>, the matcher returns \<open>9780134685991\<close>. The same
  holds for \<open>9780134685991\<close> when, in addition, \<open>post\<close> does not begin with a hyphen or
  a white space and then a number that ends at a word boundary.
\<close>

theorem isbn13_sample_found:
  assumes "isbn_lead db lead" and "pre = [] \<or> \<not> is_word db (last pre)"
    and "post = [] \<or> \<not> is_word db (hd post)"
  shows "(no_match_before db ISBN_RE None pre (lead @ codes ''978-0-13-468599-1'' @ post) \<longrightarrow>
            find_isbn_in_text db (pre @ lead @ codes ''978-0-13-468599-1'' @ post) =
              Inr (Some (codes ''9780134685991''))) \<and>
         (no_match_before db ISBN_RE None pre (lead @ codes ''9780134685991'' @ post) \<and>
          \<not> sep_then_number db post \<longrightarrow>
            find_isbn_in_text db (pre @ lead @ codes ''9780134685991'' @ post) =
              Inr (Some (codes ''9780134685991'')))"
proof (intro conjI impI)
  assume "no_match_before db ISBN_RE None pre (lead @ codes ''978-0-13-468599-1'' @ post)"
  then have n: "no_match_before db ISBN_RE None pre (lead @ 57 # codes ''78-0-13-468599-1'' @ post)"
    by (simp only: codes_hyphenated)
  have "find_isbn_in_text db (pre @ lead @ 57 # codes ''78-0-13-468599-1'' @ post) =
        Inr (Some (normalize_isbn db (codes ''978-0-13-468599-1'')))"
    using group_at_hyphenated [OF assms(3)]
    by (intro find_at_lead [OF n assms(1,2)]) (simp only: codes_hyphenated)
  then show "find_isbn_in_text db (pre @ lead @ codes ''978-0-13-468599-1'' @ post) =
        Inr (Some (codes ''9780134685991''))"
    by (simp only: codes_hyphenated normalize_hyphenated)
next
  assume a: "no_match_before db ISBN_RE None pre (lead @ codes ''9780134685991'' @ post) \<and>
          \<not> sep_then_number db post"
  then have n: "no_match_before db ISBN_RE None pre (lead @ 57 # codes ''780134685991'' @ post)"
    by (simp only: codes_plain)
  have "find_isbn_in_text db (pre @ lead @ 57 # codes ''780134685991'' @ post) =
        Inr (Some (normalize_isbn db (codes ''9780134685991'')))"
    using group_at_plain [OF assms(3) a [THEN conjunct2]]
    by (intro find_at_lead [OF n assms(1,2)]) (simp only: codes_plain)
  then show "find_isbn_in_text db (pre @ lead @ codes ''9780134685991'' @ post) =
        Inr (Some (codes ''9780134685991''))"
    by (simp only: codes_plain normalize_plain)
qed

theorem isbn13_sample_found_witness:
  "\<forall>db. find_isbn_in_text db (codes ''ISBN-13: 978-0-13-468599-1'') =
           Inr (Some (codes ''9780134685991'')) \<and>
        find_isbn_in_text db (codes ''Vol. 1, 978-0-13-468599-1'') =
           Inr (Some (codes ''9780134685991'')) \<and>
        find_isbn_in_text db (codes ''ISBN978-0-13-468599-1'') =
           Inr (Some (codes ''9780134685991'')) \<and>
        find_isbn_in_text db (codes ''see ISBN 978-0-13-468599-1.'') =
           Inr (Some (codes ''9780134685991'')) \<and>
        find_isbn_in_text db (codes ''see ISBN 9780134685991.'') =
           Inr (Some (codes ''9780134685991'')) \<and>
        find_isbn_in_text db (codes ''9780134685991 2nd edition'') =
           Inr (Some (codes ''9780134685991''))"
proof (intro allI)
  fix db :: unicode_db
  have l: "isbn_lead db []" "isbn_lead db (codes ''ISBN-13: '')" "isbn_lead db (codes ''ISBN'')"
    "isbn_lead db (codes ''ISBN '')"
    by (simp_all add: hyp_defs codes_def is_space_ascii)
  have e: "([]::pystr) = [] \<or> \<not> is_word db (hd [])" by simp
  have b: "([]::pystr) = [] \<or> \<not> is_word db (last [])"
    "codes ''Vol. 1, '' = [] \<or> \<not> is_word db (last (codes ''Vol. 1, ''))"
    "codes ''see '' = [] \<or> \<not> is_word db (last (codes ''see ''))"
    "codes ''.'' = [] \<or> \<not> is_word db (hd (codes ''.''))"
    "codes '' 2nd edition'' = [] \<or> \<not> is_word db (hd (codes '' 2nd edition''))"
    by (simp_all add: codes_def is_word_ascii)
  have n: "no_match_before db ISBN_RE None [] (codes ''ISBN-13: '' @ codes ''978-0-13-468599-1'' @ [])"
    "no_match_before db ISBN_RE None (codes ''Vol. 1, '') ([] @ codes ''978-0-13-468599-1'' @ [])"
    "no_match_before db ISBN_RE None [] (codes ''ISBN'' @ codes ''978-0-13-468599-1'' @ [])"
    "no_match_before db ISBN_RE None (codes ''see '') (codes ''ISBN '' @ codes ''978-0-13-468599-1'' @ codes ''.'')"
    "no_match_before db ISBN_RE None (codes ''see '') (codes ''ISBN '' @ codes ''9780134685991'' @ codes ''.'')"
    "no_match_before db ISBN_RE None [] ([] @ codes ''9780134685991'' @ codes '' 2nd edition'')"
    by (simp_all add: eval_defs)
  have s: "\<not> sep_then_number db (codes ''.'')" "\<not> sep_then_number db (codes '' 2nd edition'')"
    by (simp_all add: hyp_defs codes_def is_decimal_ascii is_word_ascii is_space_ascii)
  from isbn13_sample_found [OF l(2) b(1) e] n(1)
  have 1: "find_isbn_in_text db ([] @ codes ''ISBN-13: '' @ codes ''978-0-13-468599-1'' @ []) =
           Inr (Some (codes ''9780134685991''))" by blast
  from isbn13_sample_found [OF l(1) b(2) e] n(2)
  have 2: "find_isbn_in_text db (codes ''Vol. 1, '' @ [] @ codes ''978-0-13-468599-1'' @ []) =
           Inr (Some (codes ''9780134685991''))" by blast
  from isbn13_sample_found [OF l(3) b(1) e] n(3)
  have 3: "find_isbn_in_text db ([] @ codes ''ISBN'' @ codes ''978-0-13-468599-1'' @ []) =
           Inr (Some (codes ''9780134685991''))" by blast
  from isbn13_sample_found [OF l(4) b(3) b(4)] n(4) n(5) s(1)
  have 4: "find_isbn_in_text db (codes ''see '' @ codes ''ISBN '' @ codes ''978-0-13-468599-1'' @ codes ''.'') =
           Inr (Some (codes ''9780134685991''))"
    and 5: "find_isbn_in_text db (codes ''see '' @ codes ''ISBN '' @ codes ''9780134685991'' @ codes ''.'') =
           Inr (Some (codes ''9780134685991''))" by blast+
  from isbn13_sample_found [OF l(1) b(1) b(5)] n(6) s(2)
  have 6: "find_isbn_in_text db ([] @ [] @ codes ''9780134685991'' @ codes '' 2nd edition'') =
           Inr (Some (codes ''9780134685991''))" by blast
  from 1 2 3 4 5 6
  show "find_isbn_in_text db (codes ''ISBN-13: 978-0-13-468599-1'') =
           Inr (Some (codes ''9780134685991'')) \<and>
        find_isbn_in_text db (codes ''Vol. 1, 978-0-13-468599-1'') =
           Inr (Some (codes ''9780134685991'')) \<and>
        find_isbn_in_text db (codes ''ISBN978-0-13-468599-1'') =
           Inr (Some (codes ''9780134685991'')) \<and>
        find_isbn_in_text db (codes ''see ISBN 978-0-13-468599-1.'') =
           Inr (Some (codes ''9780134685991'')) \<and>
        find_isbn_in_text db (codes ''see ISBN 9780134685991.'') =
           Inr (Some (codes ''9780134685991'')) \<and>
        find_isbn_in_text db (codes ''9780134685991 2nd edition'') =
           Inr (Some (codes ''9780134685991''))"
    by (simp add: codes_def)
qed

text \<open>
  Each condition is needed. In \<open>2024, 978-0-13-468599-1\<close> a match begins before the ISBN;
  in \<open>x978-0-13-468599-1\<close> a word character stands before it; in \<open>978-0-13-468599-12\<close>
  a word character stands after it; in \<open>9780134685991-5\<close> a hyphen and a number follow
  it.
\<close>

theorem isbn13_sample_found_counterexample:
  "\<forall>db. find_isbn_in_text db (codes ''2024, 978-0-13-468599-1'') = Inr (Some (codes ''2024'')) \<and>
        find_isbn_in_text db (codes ''x978-0-13-468599-1'') = Inr (Some (codes ''0134685991'')) \<and>
        find_isbn_in_text db (codes ''978-0-13-468599-12'') = Inr (Some (codes ''978013468599'')) \<and>
        find_isbn_in_text db (codes ''9780134685991-5'') = Inr (Some (codes ''97801346859915'')) \<and>
        codes ''2024'' \<noteq> codes ''9780134685991'' \<and>
        codes ''0134685991'' \<noteq> codes ''9780134685991'' \<and>
        codes ''978013468599'' \<noteq> codes ''9780134685991'' \<and>
        codes ''97801346859915'' \<noteq> codes ''9780134685991''"
  by (simp add: eval_defs normalize_isbn_filter)

text \<open>
  C4, as amended. When no match of the pattern begins before \<open>ISBN: 0-13-468599-1\<close> and
  the character after it (if any) is not a word character, the matcher returns
  \<open>0134685991\<close>: the prefix and the hyphens are gone and the last character is kept.
\<close>

theorem isbn10_sample_found:
  assumes "no_match_before db ISBN_RE None pre (codes ''ISBN: 0-13-468599-1'' @ post)"
    and "post = [] \<or> \<not> is_word db (hd post)"
  shows "find_isbn_in_text db (pre @ codes ''ISBN: 0-13-468599-1'' @ post) =
           Inr (Some (codes ''0134685991''))"
proof -
  from search_at_ISBN10 [OF assms(2), of "lastp None pre"] no_match_before_search [OF assms(1)]
  have "map_option cap (re_search db ISBN_RE (pre @ codes ''ISBN: 0-13-468599-1'' @ post)) =
        Some (Some (codes ''0-13-468599-1''))"
    by (simp add: re_search_def)
  then show ?thesis by (auto simp: find_isbn_in_text_def normalize_ISBN10)
qed

theorem isbn10_sample_found_witness:
  "\<forall>db. find_isbn_in_text db (codes ''Vol. 1, ISBN: 0-13-468599-1'') =
           Inr (Some (codes ''0134685991'')) \<and>
        find_isbn_in_text db (codes ''2nd ed. ISBN: 0-13-468599-1'') =
           Inr (Some (codes ''0134685991'')) \<and>
        find_isbn_in_text db (codes ''Hardcover, ISBN: 0-13-468599-1 (pbk.)'') =
           Inr (Some (codes ''0134685991''))"
proof (intro allI)
  fix db :: unicode_db
  have b: "([]::pystr) = [] \<or> \<not> is_word db (hd [])"
    "codes '' (pbk.)'' = [] \<or> \<not> is_word db (hd (codes '' (pbk.)''))"
    by (simp_all add: codes_def is_word_ascii)
  have n: "no_match_before db ISBN_RE None (codes ''Vol. 1, '') (codes ''ISBN: 0-13-468599-1'' @ [])"
    "no_match_before db ISBN_RE None (codes ''2nd ed. '') (codes ''ISBN: 0-13-468599-1'' @ [])"
    "no_match_before db ISBN_RE None (codes ''Hardcover, '') (codes ''ISBN: 0-13-468599-1'' @ codes '' (pbk.)'')"
    by (simp_all add: eval_defs)
  from isbn10_sample_found [OF n(1) b(1)] isbn10_sample_found [OF n(2) b(1)]
    isbn10_sample_found [OF n(3) b(2)]
  show "find_isbn_in_text db (codes ''Vol. 1, ISBN: 0-13-468599-1'') =
           Inr (Some (codes ''0134685991'')) \<and>
        find_isbn_in_text db (codes ''2nd ed. ISBN: 0-13-468599-1'') =
           Inr (Some (codes ''0134685991'')) \<and>
        find_isbn_in_text db (codes ''Hardcover, ISBN: 0-13-468599-1 (pbk.)'') =
           Inr (Some (codes ''0134685991''))"
    by (simp add: codes_def)
qed

text \<open>
  Both conditions are needed: in \<open>2024, ISBN: 0-13-468599-1\<close> a match begins before the
  substring, and in \<open>ISBN: 0-13-468599-12\<close> a word character stands after it.
\<close>

theorem isbn10_sample_found_counterexample:
  "\<forall>db. find_isbn_in_text db (codes ''2024, ISBN: 0-13-468599-1'') = Inr (Some (codes ''2024'')) \<and>
        find_isbn_in_text db (codes ''ISBN: 0-13-468599-12'') = Inr (Some (codes ''013468599'')) \<and>
        codes ''2024'' \<noteq> codes ''0134685991'' \<and>
        codes ''013468599'' \<noteq> codes ''0134685991''"
  by (simp add: eval_defs normalize_isbn_filter)

end
